theory Spec2Isabelle
  imports Complex_Main "HOL-Library.Word"
begin

unbundle bit_operations_syntax

section \<open>Values\<close>

subsection \<open>The numeric type: IEEE 754 binary32\<close>

text \<open>
  Every value of the language is a C \<^verbatim>\<open>float\<close>. A float is modelled by its bit pattern:
  one sign bit, eight exponent bits, twenty-three fraction bits. Classification, comparison
  and conversion are defined on the pattern; the arithmetic itself (\<^verbatim>\<open>+ - * /\<close>,
  \<^verbatim>\<open>powf\<close>, \<^verbatim>\<open>fmodf\<close>) is the host's and is a parameter of the model, see \<open>host\<close> below.
\<close>

datatype float = Float (bits: "32 word")

definition fsign :: "float \<Rightarrow> bool" where
  "fsign x = (2 ^ 31 \<le> unat (bits x))"

definition fexp :: "float \<Rightarrow> nat" where
  "fexp x = (unat (bits x) div 2 ^ 23) mod 256"

definition ffrac :: "float \<Rightarrow> nat" where
  "ffrac x = unat (bits x) mod 2 ^ 23"

definition isnan :: "float \<Rightarrow> bool" where
  "isnan x \<longleftrightarrow> fexp x = 255 \<and> ffrac x \<noteq> 0"

text \<open>
  \<^verbatim>\<open>isinf\<close> is the classification macro of \<^verbatim>\<open>math.h\<close>. With GCC and glibc it expands to
  \<^verbatim>\<open>__builtin_isinf_sign\<close>, whose value is \<open>1\<close> at \<open>+\<infinity>\<close>, \<open>-1\<close> at \<open>-\<infinity>\<close> and \<open>0\<close> elsewhere;
  \<^verbatim>\<open>to_int\<close> multiplies by that sign.
\<close>

definition isinf :: "float \<Rightarrow> int" where
  "isinf x = (if fexp x = 255 \<and> ffrac x = 0 then (if fsign x then - 1 else 1) else 0)"

text \<open>
  The number a pattern stands for. Subnormals have exponent field \<open>0\<close> and no hidden bit.
  The same formula reads the two infinities as \<open>\<plusminus> 2 ^ 128\<close>, beyond every finite float,
  which is all the comparisons need. It is not used on a NaN.
\<close>

definition valof :: "float \<Rightarrow> rat" where
  "valof x =
     (let m = (if fexp x = 0 then ffrac x else 2 ^ 23 + ffrac x);
          e = (if fexp x = 0 then 1 else fexp x)
      in (if fsign x then - 1 else 1) * of_nat m * 2 powi (int e - 150))"

definition finite_float :: "float \<Rightarrow> bool" where
  "finite_float x \<longleftrightarrow> fexp x \<noteq> 255"

text \<open>C's comparison operators on floats: every comparison with a NaN is false, except \<^verbatim>\<open>!=\<close>.\<close>

definition flt :: "float \<Rightarrow> float \<Rightarrow> bool" where
  "flt x y \<longleftrightarrow> \<not> isnan x \<and> \<not> isnan y \<and> valof x < valof y"

definition fle :: "float \<Rightarrow> float \<Rightarrow> bool" where
  "fle x y \<longleftrightarrow> \<not> isnan x \<and> \<not> isnan y \<and> valof x \<le> valof y"

definition fgt :: "float \<Rightarrow> float \<Rightarrow> bool" where
  "fgt x y \<longleftrightarrow> \<not> isnan x \<and> \<not> isnan y \<and> valof y < valof x"

definition fge :: "float \<Rightarrow> float \<Rightarrow> bool" where
  "fge x y \<longleftrightarrow> \<not> isnan x \<and> \<not> isnan y \<and> valof y \<le> valof x"

definition feq :: "float \<Rightarrow> float \<Rightarrow> bool" where
  "feq x y \<longleftrightarrow> \<not> isnan x \<and> \<not> isnan y \<and> valof x = valof y"

definition fne :: "float \<Rightarrow> float \<Rightarrow> bool" where
  "fne x y \<longleftrightarrow> \<not> feq x y"

text \<open>The constants the source writes: \<^verbatim>\<open>0\<close> and \<^verbatim>\<open>1\<close> as floats, and the macro \<^verbatim>\<open>NAN\<close>.\<close>

definition fzero :: float where
  "fzero = Float 0"

definition fone :: float where
  "fone = Float 0x3F800000"

definition NAN :: float where
  "NAN = Float 0x7FC00000"

text \<open>\<^verbatim>\<open>n != 0\<close>, the truth test of the evaluator. A NaN passes it.\<close>

definition nonzero :: "float \<Rightarrow> bool" where
  "nonzero n \<longleftrightarrow> fne n fzero"

text \<open>Unary minus flips the sign bit.\<close>

definition fneg :: "float \<Rightarrow> float" where
  "fneg x = Float (bits x XOR 0x80000000)"

subsection \<open>The integer view\<close>

text \<open>C's \<^verbatim>\<open>int\<close> is a 32-bit two's complement word, read by \<open>sint\<close>.\<close>

type_synonym cint = "32 word"

definition INT_MAX :: cint where
  "INT_MAX = 0x7FFFFFFF"

definition INT_MIN :: cint where
  "INT_MIN = 0x80000000"

definition trunc :: "rat \<Rightarrow> int" where
  "trunc q = (if 0 \<le> q then \<lfloor>q\<rfloor> else - \<lfloor>- q\<rfloor>)"

text \<open>
  The cast \<^verbatim>\<open>(int)x\<close> discards the fractional part. C leaves it undefined when the
  truncated value is not an \<^verbatim>\<open>int\<close>; undefined behaviour is \<open>None\<close> throughout.
\<close>

definition int_of_float :: "float \<Rightarrow> cint option" where
  "int_of_float x =
     (if finite_float x \<and> - (2 ^ 31) \<le> trunc (valof x) \<and> trunc (valof x) < 2 ^ 31
      then Some (word_of_int (trunc (valof x))) else None)"

definition to_int :: "float \<Rightarrow> cint option" where
  "to_int x =
     (if isnan x then Some 0
      else if isinf x \<noteq> 0 then Some (INT_MAX * word_of_int (isinf x))
      else int_of_float x)"

text \<open>
  The conversion of an \<^verbatim>\<open>int\<close> to \<^verbatim>\<open>float\<close>, which every integer result goes through on
  its way out of the evaluator. An integer of more than 24 significant bits is rounded to
  the nearest float, ties to even.
\<close>

fun bit_length :: "nat \<Rightarrow> nat" where
  "bit_length n = (if n = 0 then 0 else Suc (bit_length (n div 2)))"

declare bit_length.simps [simp del]

definition round_half_even :: "nat \<Rightarrow> nat \<Rightarrow> nat" where
  "round_half_even a d =
     (let q = a div d; r = a mod d
      in if 2 * r < d then q else if d < 2 * r then q + 1
         else if even q then q else q + 1)"

definition float_of_int :: "int \<Rightarrow> float" where
  "float_of_int i =
     (if i = 0 then Float 0
      else let a = nat \<bar>i\<bar>; k = bit_length a;
               m = (if k \<le> 24 then a * 2 ^ (24 - k) else round_half_even a (2 ^ (k - 24)))
           in Float (of_nat ((if i < 0 then 2 ^ 31 else 0) + (k + 125) * 2 ^ 23 + m)))"

definition of_cint :: "cint \<Rightarrow> float" where
  "of_cint w = float_of_int (sint w)"

definition c_bool :: "bool \<Rightarrow> cint" where
  "c_bool b = (if b then 1 else 0)"

text \<open>
  The integer operators. A shift is undefined for a negative or too large count, a left
  shift also for a negative or overflowing left operand; \<^verbatim>\<open>>>\<close> of a negative number
  is the arithmetic shift.
\<close>

definition c_shl :: "cint \<Rightarrow> cint \<Rightarrow> cint option" where
  "c_shl i j =
     (if 0 \<le> sint j \<and> sint j < 32 \<and> 0 \<le> sint i \<and> sint i * 2 ^ nat (sint j) < 2 ^ 31
      then Some (push_bit (nat (sint j)) i) else None)"

definition c_shr :: "cint \<Rightarrow> cint \<Rightarrow> cint option" where
  "c_shr i j =
     (if 0 \<le> sint j \<and> sint j < 32 then Some (signed_drop_bit (nat (sint j)) i) else None)"

text \<open>
  \<^verbatim>\<open>to_int(x) op to_int(y)\<close>, converted back to a float: the shape of every bitwise and
  shift case of the evaluator.
\<close>

definition int_view :: "(cint \<Rightarrow> cint \<Rightarrow> cint option) \<Rightarrow> float \<Rightarrow> float \<Rightarrow> float option" where
  "int_view f x y =
     (case to_int x of None \<Rightarrow> None
      | Some i \<Rightarrow> (case to_int y of None \<Rightarrow> None
          | Some j \<Rightarrow> (case f i j of None \<Rightarrow> None | Some r \<Rightarrow> Some (of_cint r))))"

section \<open>Expression trees\<close>

datatype expr_type =
    OP_UNKNOWN
  | OP_UNARY_MINUS
  | OP_UNARY_LOGICAL_NOT
  | OP_UNARY_BITWISE_NOT
  | OP_POWER
  | OP_DIVIDE
  | OP_MULTIPLY
  | OP_REMAINDER
  | OP_PLUS
  | OP_MINUS
  | OP_SHL
  | OP_SHR
  | OP_LT
  | OP_LE
  | OP_GT
  | OP_GE
  | OP_EQ
  | OP_NE
  | OP_BITWISE_AND
  | OP_BITWISE_OR
  | OP_BITWISE_XOR
  | OP_LOGICAL_AND
  | OP_LOGICAL_OR
  | OP_ASSIGN
  | OP_COMMA
  | OP_CONST
  | OP_VAR
  | OP_FUNC

text \<open>
  \<^verbatim>\<open>struct expr\<close> is a tag and a union. An operator node has the vector of its arguments;
  a constant its value; a variable reference a handle to the cell of the variable; a call
  the index of its descriptor in the function table, its arguments and its context block
  (\<open>None\<close> when the descriptor asks for none).
\<close>

datatype expr =
    Op expr_type "expr list"
  | Const float
  | Var nat
  | Func nat "expr list" "nat option"

fun type_of :: "expr \<Rightarrow> expr_type" where
  "type_of (Op t args) = t"
| "type_of (Const v) = OP_CONST"
| "type_of (Var k) = OP_VAR"
| "type_of (Func f args ctx) = OP_FUNC"

section \<open>Variables\<close>

text \<open>
  The environment is a linked list, newest variable at the head. A node of the tree points
  at the value cell of a variable; cells never move, so the handle of a variable is fixed
  when it is created: it is the number of variables created before it, which is its
  position counted from the tail of the list.
\<close>

record expr_var =
  var_name :: string
  var_value :: float

definition deref :: "expr_var list \<Rightarrow> nat \<Rightarrow> float option" where
  "deref vs k = (if k < length vs then Some (var_value (vs ! (length vs - Suc k))) else None)"

definition assign :: "expr_var list \<Rightarrow> nat \<Rightarrow> float \<Rightarrow> expr_var list option" where
  "assign vs k n =
     (if k < length vs
      then Some (vs[length vs - Suc k := (vs ! (length vs - Suc k))\<lparr>var_value := n\<rparr>])
      else None)"

section \<open>Evaluation\<close>

text \<open>
  What evaluation can change: the variables, and whatever memory the host's functions keep
  (their context blocks among it).
\<close>

record 'h state =
  vars :: "expr_var list"
  hmem :: 'h

text \<open>
  The host: its float arithmetic, the order in which its compiler evaluates the two
  operand calls of a binary operator (C does not fix it), and the callables of the
  function table. A callable receives its descriptor, the argument subtrees and the
  context, may do to the state what it likes, and returns a float.
\<close>

record 'h host =
  fadd :: "float \<Rightarrow> float \<Rightarrow> float"
  fsub :: "float \<Rightarrow> float \<Rightarrow> float"
  fmul :: "float \<Rightarrow> float \<Rightarrow> float"
  fdiv :: "float \<Rightarrow> float \<Rightarrow> float"
  powf :: "float \<Rightarrow> float \<Rightarrow> float"
  fmodf :: "float \<Rightarrow> float \<Rightarrow> float"
  lhs_first :: "expr_type \<Rightarrow> bool"
  invoke :: "nat \<Rightarrow> expr list \<Rightarrow> nat option \<Rightarrow> 'h state \<Rightarrow> (float \<times> 'h state) option"

text \<open>The operand of a unary operator: \<^verbatim>\<open>expr_eval(&e->param.op.args.buf[0])\<close>.\<close>

definition eval_arg ::
  "(expr \<Rightarrow> 's \<Rightarrow> (float \<times> 's) option) \<Rightarrow> expr list \<Rightarrow> 's \<Rightarrow> (float \<times> 's) option" where
  "eval_arg ev args st = (case args of [] \<Rightarrow> None | a # _ \<Rightarrow> ev a st)"

text \<open>Both operands of a binary operator, in the host's order.\<close>

definition eval_args ::
  "(expr \<Rightarrow> 's \<Rightarrow> (float \<times> 's) option) \<Rightarrow> bool \<Rightarrow> expr list \<Rightarrow> 's \<Rightarrow>
     (float \<times> float \<times> 's) option" where
  "eval_args ev lf args st =
     (case args of
        a # b # _ \<Rightarrow>
          (if lf
           then (case ev a st of None \<Rightarrow> None
                 | Some (x, st1) \<Rightarrow> (case ev b st1 of None \<Rightarrow> None
                     | Some (y, st2) \<Rightarrow> Some (x, y, st2)))
           else (case ev b st of None \<Rightarrow> None
                 | Some (y, st1) \<Rightarrow> (case ev a st1 of None \<Rightarrow> None
                     | Some (x, st2) \<Rightarrow> Some (x, y, st2))))
      | _ \<Rightarrow> None)"

definition unop :: "(float \<Rightarrow> float option) \<Rightarrow> (float \<times> 's) option \<Rightarrow> (float \<times> 's) option" where
  "unop f r =
     (case r of None \<Rightarrow> None
      | Some (x, st) \<Rightarrow> (case f x of None \<Rightarrow> None | Some v \<Rightarrow> Some (v, st)))"

definition binop ::
  "(float \<Rightarrow> float \<Rightarrow> float option) \<Rightarrow> (float \<times> float \<times> 's) option \<Rightarrow> (float \<times> 's) option" where
  "binop f r =
     (case r of None \<Rightarrow> None
      | Some (x, y, st) \<Rightarrow> (case f x y of None \<Rightarrow> None | Some v \<Rightarrow> Some (v, st)))"

lemma eval_arg_cong [fundef_cong]:
  assumes "args = args'" "st = st'" "\<And>e s. e \<in> set args' \<Longrightarrow> ev e s = ev' e s"
  shows "eval_arg ev args st = eval_arg ev' args' st'"
  using assms by (auto simp: eval_arg_def split: list.splits)

lemma eval_args_cong [fundef_cong]:
  assumes "args = args'" "lf = lf'" "st = st'" "\<And>e s. e \<in> set args' \<Longrightarrow> ev e s = ev' e s"
  shows "eval_args ev lf args st = eval_args ev' lf' args' st'"
  using assms by (auto simp: eval_args_def split: list.splits option.splits)

text \<open>
  \<^verbatim>\<open>expr_eval\<close>, one case for each case of the \<^verbatim>\<open>switch\<close>. The state goes through the calls
  in the order they are made. \<open>None\<close> is undefined behaviour: an argument read beyond the
  vector of a node, a cast or a shift that C leaves undefined, a handle that points at no
  variable, or what a callable of the host reports. The tag \<^verbatim>\<open>OP_UNKNOWN\<close> falls to the
  \<^verbatim>\<open>default\<close> case. The tags \<^verbatim>\<open>OP_CONST\<close>, \<^verbatim>\<open>OP_VAR\<close> and \<^verbatim>\<open>OP_FUNC\<close> belong to the other
  members of the union, the constructors \<open>Const\<close>, \<open>Var\<close> and \<open>Func\<close>; on an operator node
  they would read a member that was not written.
\<close>

fun expr_eval :: "'h host \<Rightarrow> expr \<Rightarrow> 'h state \<Rightarrow> (float \<times> 'h state) option" where
  "expr_eval h (Op t args) st =
     (case t of
        OP_UNARY_MINUS \<Rightarrow> unop (\<lambda>x. Some (fneg x)) (eval_arg (expr_eval h) args st)
      | OP_UNARY_LOGICAL_NOT \<Rightarrow>
          unop (\<lambda>x. Some (of_cint (c_bool (\<not> nonzero x)))) (eval_arg (expr_eval h) args st)
      | OP_UNARY_BITWISE_NOT \<Rightarrow>
          unop (\<lambda>x. map_option (\<lambda>i. of_cint (NOT i)) (to_int x)) (eval_arg (expr_eval h) args st)
      | OP_POWER \<Rightarrow>
          binop (\<lambda>x y. Some (powf h x y)) (eval_args (expr_eval h) (lhs_first h t) args st)
      | OP_MULTIPLY \<Rightarrow>
          binop (\<lambda>x y. Some (fmul h x y)) (eval_args (expr_eval h) (lhs_first h t) args st)
      | OP_DIVIDE \<Rightarrow>
          binop (\<lambda>x y. Some (fdiv h x y)) (eval_args (expr_eval h) (lhs_first h t) args st)
      | OP_REMAINDER \<Rightarrow>
          binop (\<lambda>x y. Some (fmodf h x y)) (eval_args (expr_eval h) (lhs_first h t) args st)
      | OP_PLUS \<Rightarrow>
          binop (\<lambda>x y. Some (fadd h x y)) (eval_args (expr_eval h) (lhs_first h t) args st)
      | OP_MINUS \<Rightarrow>
          binop (\<lambda>x y. Some (fsub h x y)) (eval_args (expr_eval h) (lhs_first h t) args st)
      | OP_SHL \<Rightarrow>
          binop (int_view c_shl) (eval_args (expr_eval h) (lhs_first h t) args st)
      | OP_SHR \<Rightarrow>
          binop (int_view c_shr) (eval_args (expr_eval h) (lhs_first h t) args st)
      | OP_LT \<Rightarrow>
          binop (\<lambda>x y. Some (of_cint (c_bool (flt x y))))
            (eval_args (expr_eval h) (lhs_first h t) args st)
      | OP_LE \<Rightarrow>
          binop (\<lambda>x y. Some (of_cint (c_bool (fle x y))))
            (eval_args (expr_eval h) (lhs_first h t) args st)
      | OP_GT \<Rightarrow>
          binop (\<lambda>x y. Some (of_cint (c_bool (fgt x y))))
            (eval_args (expr_eval h) (lhs_first h t) args st)
      | OP_GE \<Rightarrow>
          binop (\<lambda>x y. Some (of_cint (c_bool (fge x y))))
            (eval_args (expr_eval h) (lhs_first h t) args st)
      | OP_EQ \<Rightarrow>
          binop (\<lambda>x y. Some (of_cint (c_bool (feq x y))))
            (eval_args (expr_eval h) (lhs_first h t) args st)
      | OP_NE \<Rightarrow>
          binop (\<lambda>x y. Some (of_cint (c_bool (fne x y))))
            (eval_args (expr_eval h) (lhs_first h t) args st)
      | OP_BITWISE_AND \<Rightarrow>
          binop (int_view (\<lambda>i j. Some (i AND j)))
            (eval_args (expr_eval h) (lhs_first h t) args st)
      | OP_BITWISE_OR \<Rightarrow>
          binop (int_view (\<lambda>i j. Some (i OR j)))
            (eval_args (expr_eval h) (lhs_first h t) args st)
      | OP_BITWISE_XOR \<Rightarrow>
          binop (int_view (\<lambda>i j. Some (i XOR j)))
            (eval_args (expr_eval h) (lhs_first h t) args st)
      | OP_LOGICAL_AND \<Rightarrow>
          (case args of [] \<Rightarrow> None
           | a # rest \<Rightarrow>
               (case expr_eval h a st of None \<Rightarrow> None
                | Some (n, st1) \<Rightarrow>
                    if nonzero n
                    then (case rest of [] \<Rightarrow> None
                          | b # _ \<Rightarrow>
                              (case expr_eval h b st1 of None \<Rightarrow> None
                               | Some (m, st2) \<Rightarrow>
                                   if nonzero m then Some (m, st2) else Some (fzero, st2)))
                    else Some (fzero, st1)))
      | OP_LOGICAL_OR \<Rightarrow>
          (case args of [] \<Rightarrow> None
           | a # rest \<Rightarrow>
               (case expr_eval h a st of None \<Rightarrow> None
                | Some (n, st1) \<Rightarrow>
                    if nonzero n \<and> \<not> isnan n then Some (n, st1)
                    else (case rest of [] \<Rightarrow> None
                          | b # _ \<Rightarrow>
                              (case expr_eval h b st1 of None \<Rightarrow> None
                               | Some (m, st2) \<Rightarrow>
                                   if nonzero m then Some (m, st2) else Some (fzero, st2)))))
      | OP_ASSIGN \<Rightarrow>
          (case args of
             lhs # rhs # _ \<Rightarrow>
               (case expr_eval h rhs st of None \<Rightarrow> None
                | Some (n, st1) \<Rightarrow>
                    (case lhs of
                       Var k \<Rightarrow>
                         (case assign (vars st1) k n of None \<Rightarrow> None
                          | Some vs \<Rightarrow> Some (n, st1\<lparr>vars := vs\<rparr>))
                     | _ \<Rightarrow> Some (n, st1)))
           | _ \<Rightarrow> None)
      | OP_COMMA \<Rightarrow>
          (case args of
             a # b # _ \<Rightarrow>
               (case expr_eval h a st of None \<Rightarrow> None | Some (_, st1) \<Rightarrow> expr_eval h b st1)
           | _ \<Rightarrow> None)
      | OP_UNKNOWN \<Rightarrow> Some (NAN, st)
      | _ \<Rightarrow> None)"
| "expr_eval h (Const v) st = Some (v, st)"
| "expr_eval h (Var k) st = (case deref (vars st) k of None \<Rightarrow> None | Some v \<Rightarrow> Some (v, st))"
| "expr_eval h (Func f args ctx) st = invoke h f args ctx st"

section \<open>A host for the examples\<close>

text \<open>
  The theorems below hold for every host. Where one is needed to run an example, this is
  it: its arithmetic is exact on integers (it works on the truncated operands), it
  evaluates the left operand first, and its function table has no callable.
\<close>

definition on_ints :: "(int \<Rightarrow> int \<Rightarrow> int) \<Rightarrow> float \<Rightarrow> float \<Rightarrow> float" where
  "on_ints f x y = float_of_int (f (trunc (valof x)) (trunc (valof y)))"

definition int_host :: "unit host" where
  "int_host =
     \<lparr>fadd = on_ints (\<lambda>a b. a + b),
      fsub = on_ints (\<lambda>a b. a - b),
      fmul = on_ints (\<lambda>a b. a * b),
      fdiv = on_ints (\<lambda>a b. a div b),
      powf = on_ints (\<lambda>a b. a ^ nat b),
      fmodf = on_ints (\<lambda>a b. a mod b),
      lhs_first = (\<lambda>t. True),
      invoke = (\<lambda>f args ctx st. None)\<rparr>"

definition st0 :: "unit state" where
  "st0 = \<lparr>vars = [], hmem = ()\<rparr>"

text \<open>A state with one variable, \<^verbatim>\<open>b\<close>, whose value is \<open>0\<close>; its handle is \<open>0\<close>.\<close>

definition st_b :: "unit state" where
  "st_b = \<lparr>vars = [\<lparr>var_name = ''b'', var_value = fzero\<rparr>], hmem = ()\<rparr>"

section \<open>Trees that cannot write\<close>

text \<open>No \<^verbatim>\<open>OP_ASSIGN\<close> node and no call anywhere in the tree.\<close>

fun no_assign_func :: "expr \<Rightarrow> bool" where
  "no_assign_func (Op t args) = (t \<noteq> OP_ASSIGN \<and> list_all no_assign_func args)"
| "no_assign_func (Const v) = True"
| "no_assign_func (Var k) = True"
| "no_assign_func (Func f args ctx) = False"

section \<open>Operators\<close>

definition expr_is_unary :: "expr_type \<Rightarrow> bool" where
  "expr_is_unary op \<longleftrightarrow>
     op = OP_UNARY_MINUS \<or> op = OP_UNARY_LOGICAL_NOT \<or> op = OP_UNARY_BITWISE_NOT"

definition expr_is_binary :: "expr_type \<Rightarrow> bool" where
  "expr_is_binary op \<longleftrightarrow>
     \<not> expr_is_unary op \<and> op \<noteq> OP_CONST \<and> op \<noteq> OP_VAR \<and> op \<noteq> OP_FUNC \<and> op \<noteq> OP_UNKNOWN"

text \<open>The array \<^verbatim>\<open>prec\<close> is indexed by the tag, that is by its position in the enumeration.\<close>

fun type_index :: "expr_type \<Rightarrow> nat" where
  "type_index OP_UNKNOWN = 0"
| "type_index OP_UNARY_MINUS = 1"
| "type_index OP_UNARY_LOGICAL_NOT = 2"
| "type_index OP_UNARY_BITWISE_NOT = 3"
| "type_index OP_POWER = 4"
| "type_index OP_DIVIDE = 5"
| "type_index OP_MULTIPLY = 6"
| "type_index OP_REMAINDER = 7"
| "type_index OP_PLUS = 8"
| "type_index OP_MINUS = 9"
| "type_index OP_SHL = 10"
| "type_index OP_SHR = 11"
| "type_index OP_LT = 12"
| "type_index OP_LE = 13"
| "type_index OP_GT = 14"
| "type_index OP_GE = 15"
| "type_index OP_EQ = 16"
| "type_index OP_NE = 17"
| "type_index OP_BITWISE_AND = 18"
| "type_index OP_BITWISE_OR = 19"
| "type_index OP_BITWISE_XOR = 20"
| "type_index OP_LOGICAL_AND = 21"
| "type_index OP_LOGICAL_OR = 22"
| "type_index OP_ASSIGN = 23"
| "type_index OP_COMMA = 24"
| "type_index OP_CONST = 25"
| "type_index OP_VAR = 26"
| "type_index OP_FUNC = 27"

definition prec_table :: "int list" where
  "prec_table =
     [0, 1, 1, 1, 2, 2, 2, 2, 3, 3, 4, 4, 5, 5, 5, 5, 5, 5, 6, 7, 8, 9, 10, 11, 12, 0, 0, 0]"

definition prec :: "expr_type \<Rightarrow> int" where
  "prec t = prec_table ! type_index t"

definition expr_prec :: "expr_type \<Rightarrow> expr_type \<Rightarrow> bool" where
  "expr_prec a b =
     (let left = (expr_is_binary a \<and> a \<noteq> OP_ASSIGN \<and> a \<noteq> OP_POWER \<and> a \<noteq> OP_COMMA)
      in (left \<and> prec a \<ge> prec b) \<or> prec a > prec b)"

definition OPS :: "(string \<times> expr_type) list" where
  "OPS =
     [(''-u'', OP_UNARY_MINUS), (''!u'', OP_UNARY_LOGICAL_NOT),
      (''^u'', OP_UNARY_BITWISE_NOT), (''**'', OP_POWER), (''*'', OP_MULTIPLY),
      (''/'', OP_DIVIDE), (''%'', OP_REMAINDER), (''+'', OP_PLUS),
      (''-'', OP_MINUS), (''<<'', OP_SHL), (''>>'', OP_SHR), (''<'', OP_LT),
      (''<='', OP_LE), (''>'', OP_GT), (''>='', OP_GE), (''=='', OP_EQ),
      (''!='', OP_NE), (''&'', OP_BITWISE_AND), (''|'', OP_BITWISE_OR),
      (''^'', OP_BITWISE_XOR), (''&&'', OP_LOGICAL_AND), (''||'', OP_LOGICAL_OR),
      (''='', OP_ASSIGN), ('','', OP_COMMA),
      (''-'', OP_UNARY_MINUS), (''!'', OP_UNARY_LOGICAL_NOT),
      (''^'', OP_UNARY_BITWISE_NOT)]"

text \<open>
  \<^verbatim>\<open>expr_op(s, len, unary)\<close>: the first entry of the table whose string is the \<open>len\<close>
  characters at \<open>s\<close> and, unless \<open>unary\<close> is \<open>-1\<close>, whose operator is unary or not as
  \<open>unary\<close> says. The string argument is those \<open>len\<close> characters.
\<close>

definition expr_op :: "string \<Rightarrow> int \<Rightarrow> expr_type" where
  "expr_op s unary =
     (case find (\<lambda>(n, op). n = s \<and> (unary = - 1 \<or> (if expr_is_unary op then 1 else 0) = unary)) OPS
      of None \<Rightarrow> OP_UNKNOWN | Some (n, op) \<Rightarrow> op)"

section \<open>The tokenizer\<close>

text \<open>The character classes: \<^verbatim>\<open>isspace\<close> and \<^verbatim>\<open>isdigit\<close> in the C locale, and the two macros.\<close>

definition isspace :: "char \<Rightarrow> bool" where
  "isspace c \<longleftrightarrow> c \<in> {CHR '' '', CHR 0x09, CHR 0x0A, CHR 0x0B, CHR 0x0C, CHR 0x0D}"

definition isdigit :: "char \<Rightarrow> bool" where
  "isdigit c \<longleftrightarrow> (48::nat) \<le> of_char c \<and> (of_char c :: nat) \<le> 57"

definition isfirstvarchr :: "char \<Rightarrow> bool" where
  "isfirstvarchr c \<longleftrightarrow>
     ((64::nat) \<le> of_char c \<and> c \<noteq> CHR ''^'' \<and> c \<noteq> CHR ''|'') \<or> c = CHR ''$''"

definition isvarchr :: "char \<Rightarrow> bool" where
  "isvarchr c \<longleftrightarrow>
     ((64::nat) \<le> of_char c \<and> c \<noteq> CHR ''^'' \<and> c \<noteq> CHR ''|'') \<or> c = CHR ''$'' \<or>
     c = CHR ''#'' \<or> ((48::nat) \<le> of_char c \<and> (of_char c :: nat) \<le> 57)"

text \<open>
  Modelled from the spec: the header \<^verbatim>\<open>expression.h\<close>, which defines the flag masks
  \<^verbatim>\<open>EXPR_TOP\<close>, \<^verbatim>\<open>EXPR_TOPEN\<close>, \<^verbatim>\<open>EXPR_TCLOSE\<close>, \<^verbatim>\<open>EXPR_TNUMBER\<close>, \<^verbatim>\<open>EXPR_TWORD\<close>, \<^verbatim>\<open>EXPR_UNARY\<close>,
  \<^verbatim>\<open>EXPR_COMMA\<close> and \<^verbatim>\<open>EXPR_TDEFAULT\<close>, is not among the sources. The specification calls them
  the bits of the flags word and says the initial flags allow a number, a word and an open
  parenthesis. Each mask is one bit of its own, so the flags word is the set of the flags
  whose bit is set: \<^verbatim>\<open>f & M\<close> tests membership, \<^verbatim>\<open>A | B\<close> is the set of both, \<^verbatim>\<open>f & ~M\<close>
  removes one.
\<close>

datatype flag =
    EXPR_TOP
  | EXPR_TOPEN
  | EXPR_TCLOSE
  | EXPR_TNUMBER
  | EXPR_TWORD
  | EXPR_UNARY
  | EXPR_COMMA

type_synonym flags = "flag set"

definition EXPR_TDEFAULT :: flags where
  "EXPR_TDEFAULT = {EXPR_TOPEN, EXPR_TNUMBER, EXPR_TWORD}"

text \<open>
  The operator scan at the end of \<^verbatim>\<open>expr_next_token\<close>: the index \<open>i\<close> and the flag
  \<^verbatim>\<open>found\<close> when the loop is left.
\<close>

function op_scan :: "string \<Rightarrow> nat \<Rightarrow> bool \<Rightarrow> nat \<times> bool" where
  "op_scan s i found =
     (if i < length s \<and> \<not> isvarchr (s ! i) \<and> \<not> isspace (s ! i) \<and>
         s ! i \<noteq> CHR ''('' \<and> s ! i \<noteq> CHR '')''
      then (if expr_op (take (i + 1) s) 0 \<noteq> OP_UNKNOWN then op_scan s (i + 1) True
            else if found then (i, found)
            else op_scan s (i + 1) found)
      else (i, found))"
  by pat_completeness auto
termination
  by (relation "measure (\<lambda>(s, i, found). length s - i)") auto

declare op_scan.simps [simp del]

text \<open>
  \<^verbatim>\<open>expr_next_token(s, len, flags)\<close>: the string is the \<open>len\<close> characters at \<open>s\<close>; the result
  is the returned number and the flags as the call leaves them. A scanning loop that
  advances while a condition holds is \<open>takeWhile\<close>. (Three of the loops read \<^verbatim>\<open>s[len]\<close> when
  they reach the end, and then stop on \<^verbatim>\<open>i < len\<close> whatever they read.)
\<close>

definition expr_next_token :: "string \<Rightarrow> flags \<Rightarrow> int \<times> flags" where
  "expr_next_token s fl =
     (case s of
        [] \<Rightarrow> (0, fl)
      | c # _ \<Rightarrow>
          if c = CHR ''#'' then (int (length (takeWhile (\<lambda>d. d \<noteq> CHR 0x0A) s)), fl)
          else if c = CHR 0x0A then
            (let i = length (takeWhile isspace s)
             in (int i,
                 if EXPR_TOP \<in> fl
                 then (if i = length s \<or> s ! i = CHR '')'' then fl - {EXPR_COMMA}
                       else {EXPR_TNUMBER, EXPR_TWORD, EXPR_TOPEN, EXPR_COMMA})
                 else fl))
          else if isspace c then
            (int (length (takeWhile (\<lambda>d. isspace d \<and> d \<noteq> CHR 0x0A) s)), fl)
          else if isdigit c then
            (if EXPR_TNUMBER \<notin> fl then (- 1, fl)
             else (int (length (takeWhile (\<lambda>d. d = CHR ''.'' \<or> isdigit d) s)),
                   {EXPR_TOP, EXPR_TCLOSE}))
          else if isfirstvarchr c then
            (if EXPR_TWORD \<notin> fl then (- 2, fl)
             else (int (length (takeWhile isvarchr s)), {EXPR_TOP, EXPR_TOPEN, EXPR_TCLOSE}))
          else if c = CHR ''('' \<or> c = CHR '')'' then
            (if c = CHR ''('' \<and> EXPR_TOPEN \<in> fl
             then (1, {EXPR_TNUMBER, EXPR_TWORD, EXPR_TOPEN, EXPR_TCLOSE})
             else if c = CHR '')'' \<and> EXPR_TCLOSE \<in> fl then (1, {EXPR_TOP, EXPR_TCLOSE})
             else (- 3, fl))
          else if EXPR_TOP \<notin> fl then
            (if expr_op [c] 1 = OP_UNKNOWN then (- 4, fl)
             else (1, {EXPR_TNUMBER, EXPR_TWORD, EXPR_TOPEN, EXPR_UNARY}))
          else
            (case op_scan s 0 False of
               (i, found) \<Rightarrow>
                 if \<not> found then (- 5, fl)
                 else (int i, {EXPR_TNUMBER, EXPR_TWORD, EXPR_TOPEN})))"

text \<open>
  The characters the operator scan runs over, and the characters with which an operator
  lexeme starts: those no earlier case of \<^verbatim>\<open>expr_next_token\<close> takes.
\<close>

definition opchr :: "char \<Rightarrow> bool" where
  "opchr c \<longleftrightarrow> \<not> isvarchr c \<and> \<not> isspace c \<and> c \<noteq> CHR ''('' \<and> c \<noteq> CHR '')''"

definition op_start :: "char \<Rightarrow> bool" where
  "op_start c \<longleftrightarrow>
     c \<noteq> CHR ''#'' \<and> \<not> isspace c \<and> \<not> isdigit c \<and> \<not> isfirstvarchr c \<and>
     c \<noteq> CHR ''('' \<and> c \<noteq> CHR '')''"

section \<open>Numbers\<close>

text \<open>
  \<^verbatim>\<open>expr_parse_number\<close>. The loop over the characters returns \<^verbatim>\<open>NAN\<close> from its middle, which
  is \<open>None\<close> here; otherwise it leaves the number read so far, the count \<^verbatim>\<open>frac\<close> (one more
  than the number of digits after the dot, or \<open>0\<close> with no dot) and the count of digits.
  (The counters are \<^verbatim>\<open>unsigned int\<close>; a lexeme is shorter than \<open>2 ^ 32\<close> characters.)
\<close>

fun parse_digits :: "'h host \<Rightarrow> string \<Rightarrow> float \<Rightarrow> nat \<Rightarrow> nat \<Rightarrow> (float \<times> nat \<times> nat) option" where
  "parse_digits h [] num nfrac digits = Some (num, nfrac, digits)"
| "parse_digits h (c # cs) num nfrac digits =
     (if c = CHR ''.'' \<and> nfrac = 0 then parse_digits h cs num (nfrac + 1) digits
      else if isdigit c then
        parse_digits h cs
          (fadd h (fmul h num (float_of_int 10)) (float_of_int (int (of_char c) - 48)))
          (if nfrac > 0 then nfrac + 1 else nfrac) (digits + 1)
      else None)"

fun scale_down :: "'h host \<Rightarrow> float \<Rightarrow> nat \<Rightarrow> float" where
  "scale_down h num 0 = num"
| "scale_down h num (Suc nfrac) =
     (if Suc nfrac > 1 then scale_down h (fdiv h num (float_of_int 10)) nfrac else num)"

definition expr_parse_number :: "'h host \<Rightarrow> string \<Rightarrow> float" where
  "expr_parse_number h s =
     (case parse_digits h s fzero 0 0 of
        None \<Rightarrow> NAN
      | Some (num, nfrac, digits) \<Rightarrow> if digits > 0 then scale_down h num nfrac else NAN)"

section \<open>Functions and variables\<close>

text \<open>
  A descriptor of the function table: its name and the size of the context it asks for.
  (Its two callables are the host's, see \<open>invoke\<close>.) The table is an array that a null name
  ends; \<^verbatim>\<open>expr_func\<close> returns the first descriptor of the given name, here its index.
\<close>

record expr_func =
  func_name :: string
  ctxsz :: nat

fun index_of :: "('a \<Rightarrow> bool) \<Rightarrow> 'a list \<Rightarrow> nat option" where
  "index_of P [] = None"
| "index_of P (x # xs) = (if P x then Some 0 else map_option Suc (index_of P xs))"

definition expr_func :: "expr_func list \<Rightarrow> string \<Rightarrow> nat option" where
  "expr_func funcs s = index_of (\<lambda>f. func_name f = s) funcs"

text \<open>
  \<^verbatim>\<open>expr_var\<close>: the handle of the variable of the given name, created at the head of the
  list, with value \<open>0\<close>, if there is none. The result is the handle (\<open>None\<close> for the null
  pointer) and the list. \<^verbatim>\<open>strncpy\<close> copies a name up to a null character. Allocation is
  taken to succeed, here and below.
\<close>

definition expr_var :: "expr_var list \<Rightarrow> string \<Rightarrow> nat option \<times> expr_var list" where
  "expr_var vs s =
     (if s = [] \<or> \<not> isfirstvarchr (hd s) then (None, vs)
      else (case index_of (\<lambda>v. var_name v = s) vs of
              Some i \<Rightarrow> (Some (length vs - Suc i), vs)
            | None \<Rightarrow>
                (Some (length vs),
                 \<lparr>var_name = takeWhile (\<lambda>c. c \<noteq> CHR 0x00) s, var_value = fzero\<rparr> # vs)))"

section \<open>The parser\<close>

text \<open>
  The vectors of the parser are lists. The three stacks \<^verbatim>\<open>es\<close>, \<^verbatim>\<open>os\<close> and \<^verbatim>\<open>as\<close> have their
  top at the head; the arguments of a frame and the macros are in the order they were
  pushed. Popping an empty vector reads before its buffer: it is undefined.
\<close>

datatype 'a step = Next 'a | Cleanup 'a | Undefined

record expr_arg =
  oslen :: nat
  eslen :: nat
  arg_args :: "expr list"

record macro =
  macro_name :: string
  body :: "expr list"

datatype paren_state = EXPR_PAREN_ALLOWED | EXPR_PAREN_EXPECTED | EXPR_PAREN_FORBIDDEN

record pstate =
  p_es :: "expr list"
  p_os :: "string list"
  p_as :: "expr_arg list"
  p_macros :: "macro list"
  p_id :: string
  p_flags :: flags
  p_paren :: paren_state
  p_vars :: "expr_var list"

text \<open>\<^verbatim>\<open>*s\<close>, the first character of a string (the terminator if it is empty).\<close>

definition first_char :: "string \<Rightarrow> char" where
  "first_char s = (case s of [] \<Rightarrow> CHR 0x00 | c # _ \<Rightarrow> c)"

definition expr_bind :: "string \<Rightarrow> expr list \<Rightarrow> expr list option" where
  "expr_bind s es =
     (let op = expr_op s (- 1)
      in if op = OP_UNKNOWN then None
         else if expr_is_unary op then
           (case es of [] \<Rightarrow> None | arg # es' \<Rightarrow> Some (Op op [arg] # es'))
         else
           (case es of
              b # a # es' \<Rightarrow>
                if op = OP_ASSIGN \<and> type_of a \<noteq> OP_VAR then None
                else Some (Op op [a, b] # es')
            | _ \<Rightarrow> None))"

definition expr_const :: "float \<Rightarrow> expr" where
  "expr_const v = Const v"

definition expr_varref :: "nat \<Rightarrow> expr" where
  "expr_varref k = Var k"

definition expr_binary :: "expr_type \<Rightarrow> expr \<Rightarrow> expr \<Rightarrow> expr" where
  "expr_binary t a b = Op t [a, b]"

fun expr_copy :: "expr_func list \<Rightarrow> expr \<Rightarrow> expr" where
  "expr_copy funcs (Func f args ctx) =
     Func f (map (expr_copy funcs) args)
       (if f < length funcs \<and> ctxsz (funcs ! f) > 0 then Some (ctxsz (funcs ! f)) else None)"
| "expr_copy funcs (Const v) = Const v"
| "expr_copy funcs (Var k) = Var k"
| "expr_copy funcs (Op t args) = Op t (map (expr_copy funcs) args)"

text \<open>
  The loop that a \<^verbatim>\<open>)\<close> runs: pop and bind the operators above the nearest sentinel, or
  above the operators that were there when the innermost call frame was opened.
  \<open>None\<close> is a failed \<^verbatim>\<open>expr_bind\<close>.
\<close>

fun close_ops :: "nat \<Rightarrow> string list \<Rightarrow> expr list \<Rightarrow> (string list \<times> expr list) option" where
  "close_ops minlen [] es = Some ([], es)"
| "close_ops minlen (str # os) es =
     (if length (str # os) > minlen \<and> first_char str \<noteq> CHR ''('' \<and> first_char str \<noteq> CHR ''{''
      then (case expr_bind str es of None \<Rightarrow> None | Some es' \<Rightarrow> close_ops minlen os es')
      else Some (str # os, es))"

text \<open>
  The loop that an operator token runs. \<^verbatim>\<open>o2\<close> is the top of \<^verbatim>\<open>os\<close> at every turn, or the
  empty string when there is none. A comma directly inside a call frame ends an argument;
  otherwise the operators that bind tighter are bound first and the token is pushed.
  A failed \<^verbatim>\<open>expr_bind\<close> goes to \<^verbatim>\<open>cleanup\<close>.
\<close>

fun shunt ::
  "string \<Rightarrow> string list \<Rightarrow> expr list \<Rightarrow> expr_arg list \<Rightarrow>
     (string list \<times> expr list \<times> expr_arg list) step" where
  "shunt tok [] es as = Next ([tok], es, as)"
| "shunt tok (o2 # os) es as =
     (if tok = '','' \<and> o2 = ''{'' then
        (case es of
           [] \<Rightarrow> Undefined
         | e # es' \<Rightarrow>
             (case as of
                [] \<Rightarrow> Undefined
              | a # as' \<Rightarrow> Next (o2 # os, es', a\<lparr>arg_args := arg_args a @ [e]\<rparr> # as')))
      else if \<not> (expr_op o2 (- 1) \<noteq> OP_UNKNOWN \<and> expr_prec (expr_op tok (- 1)) (expr_op o2 (- 1)))
      then Next (tok # o2 # os, es, as)
      else (case expr_bind o2 es of
              None \<Rightarrow> Cleanup (o2 # os, es, as)
            | Some es' \<Rightarrow> shunt tok os es' as))"

text \<open>
  The name of the \<open>j\<close>-th macro parameter: \<^verbatim>\<open>snprintf\<close> writes \<^verbatim>\<open>"$%d"\<close> into a buffer that
  has room for two characters, so only the first digit of \<open>j\<close> gets in.
\<close>

function decimal :: "nat \<Rightarrow> string" where
  "decimal n = (if n < 10 then [char_of (48 + n)] else decimal (n div 10) @ [char_of (48 + n mod 10)])"
  by pat_completeness auto
termination
  by (relation "measure id") auto

declare decimal.simps [simp del]

definition param_name :: "nat \<Rightarrow> string" where
  "param_name j = take 2 (CHR ''$'' # decimal j)"

text \<open>
  The expansion of a macro. The first loop assigns the arguments to \<^verbatim>\<open>$1\<close>, \<^verbatim>\<open>$2\<close>, ...
  in a chain of commas whose last right operand is the hole \<open>p\<close> points at; the second
  loop chains copies of the body, without its first element, and puts the last one in the
  hole. A hole left open holds the constant \<open>0\<close>. \<open>None\<close> is the null variable.
\<close>

fun body_chain :: "expr list \<Rightarrow> expr" where
  "body_chain [] = expr_const fzero"
| "body_chain [b] = b"
| "body_chain (b # bs) = expr_binary OP_COMMA b (body_chain bs)"

fun bind_params :: "expr_var list \<Rightarrow> nat \<Rightarrow> expr list \<Rightarrow> expr \<Rightarrow> (expr \<times> expr_var list) option" where
  "bind_params vs j [] hole = Some (hole, vs)"
| "bind_params vs j (a # rest) hole =
     (case expr_var vs (param_name (j + 1)) of
        (None, vs') \<Rightarrow> None
      | (Some k, vs') \<Rightarrow>
          (case bind_params vs' (j + 1) rest hole of
             None \<Rightarrow> None
           | Some (r, vs'') \<Rightarrow>
               Some (expr_binary OP_COMMA (expr_binary OP_ASSIGN (expr_varref k) a) r, vs'')))"

definition expand_macro ::
  "expr_func list \<Rightarrow> macro \<Rightarrow> expr list \<Rightarrow> expr_var list \<Rightarrow> (expr \<times> expr_var list) option" where
  "expand_macro funcs m args vs =
     bind_params vs 0 args (body_chain (map (expr_copy funcs) (tl (body m))))"

text \<open>The last macro of a name, as the loop that sets \<^verbatim>\<open>found\<close> finds it.\<close>

definition find_macro :: "macro list \<Rightarrow> string \<Rightarrow> macro option" where
  "find_macro ms s = find (\<lambda>m. macro_name m = s) (rev ms)"

text \<open>
  What a \<^verbatim>\<open>)\<close> does once the frame of a call is closed: \<open>name\<close> is the string under the
  sentinel, \<open>args\<close> the arguments gathered. \<^verbatim>\<open>$(v, ...)\<close> defines a macro and leaves the
  constant \<open>0\<close>; the name of a macro is expanded; any other name is a call of a function of
  the table.
\<close>

definition finish_call :: "expr_func list \<Rightarrow> string \<Rightarrow> expr list \<Rightarrow> pstate \<Rightarrow> pstate step" where
  "finish_call funcs name args st =
     (if name = ''$'' then
        (case args of
           [] \<Rightarrow> Cleanup st
         | u # _ \<Rightarrow>
             (case u of
                Var k \<Rightarrow>
                  Next (st\<lparr>p_macros :=
                              (if k < length (p_vars st)
                               then p_macros st @
                                 [\<lparr>macro_name =
                                      var_name (p_vars st ! (length (p_vars st) - Suc k)),
                                    body = args\<rparr>]
                               else p_macros st),
                           p_es := expr_const fzero # p_es st\<rparr>)
              | _ \<Rightarrow> Cleanup st))
      else
        (case find_macro (p_macros st) name of
           Some m \<Rightarrow>
             (case expand_macro funcs m args (p_vars st) of
                None \<Rightarrow> Undefined
              | Some (tree, vs) \<Rightarrow> Next (st\<lparr>p_es := tree # p_es st, p_vars := vs\<rparr>))
         | None \<Rightarrow>
             (case expr_func funcs name of
                None \<Rightarrow> Undefined
              | Some f \<Rightarrow>
                  Next (st\<lparr>p_es :=
                              Func f args
                                (if ctxsz (funcs ! f) > 0 then Some (ctxsz (funcs ! f)) else None)
                              # p_es st\<rparr>))))"

text \<open>The token \<^verbatim>\<open>)\<close>.\<close>

definition close_paren :: "expr_func list \<Rightarrow> pstate \<Rightarrow> pstate step" where
  "close_paren funcs st =
     (let minlen = (case p_as st of [] \<Rightarrow> 0 | a # _ \<Rightarrow> oslen a)
      in case close_ops minlen (p_os st) (p_es st) of
           None \<Rightarrow> Cleanup st
         | Some (os, es) \<Rightarrow>
             (case os of
                [] \<Rightarrow> Cleanup st
              | str # os' \<Rightarrow>
                  if str = ''{'' then
                    (case os' of
                       [] \<Rightarrow> Undefined
                     | name # os'' \<Rightarrow>
                         (case p_as st of
                            [] \<Rightarrow> Undefined
                          | arg # as' \<Rightarrow>
                              (if length es > eslen arg
                               then finish_call funcs name (arg_args arg @ [hd es])
                                      (st\<lparr>p_es := tl es, p_os := os'', p_as := as'\<rparr>)
                               else finish_call funcs name (arg_args arg)
                                      (st\<lparr>p_es := es, p_os := os'', p_as := as'\<rparr>))))
                  else Next (st\<lparr>p_es := es, p_os := os'\<rparr>)))"

text \<open>
  A word is kept in \<^verbatim>\<open>id\<close> until the next token shows what it is: followed by \<^verbatim>\<open>(\<close> it must
  be \<^verbatim>\<open>$\<close>, a macro or a function, and goes on the operator stack; followed by anything
  else it is a variable.
\<close>

definition resolve_id :: "expr_func list \<Rightarrow> string \<Rightarrow> pstate \<Rightarrow> pstate step" where
  "resolve_id funcs tok st =
     (if p_id st \<noteq> [] then
        (if tok = ''('' then
           (if p_id st = ''$'' \<or> (\<exists>m \<in> set (p_macros st). macro_name m = p_id st) \<or>
               expr_func funcs (p_id st) \<noteq> None
            then Next (st\<lparr>p_os := p_id st # p_os st, p_paren := EXPR_PAREN_EXPECTED, p_id := []\<rparr>)
            else Cleanup st)
         else
           (case expr_var (p_vars st) (p_id st) of
              (Some k, vs) \<Rightarrow>
                Next (st\<lparr>p_es := expr_varref k # p_es st, p_paren := EXPR_PAREN_FORBIDDEN,
                         p_vars := vs, p_id := []\<rparr>)
            | (None, vs) \<Rightarrow> Next (st\<lparr>p_vars := vs, p_id := []\<rparr>)))
      else Next st)"

text \<open>
  The chain of cases on the token, after the word before it is resolved. The result is
  the state and \<^verbatim>\<open>paren_next\<close>.
\<close>

definition dispatch ::
  "'h host \<Rightarrow> expr_func list \<Rightarrow> string \<Rightarrow> pstate \<Rightarrow> (pstate \<times> paren_state) step" where
  "dispatch h funcs tok st =
     (if tok = ''('' then
        (case p_paren st of
           EXPR_PAREN_EXPECTED \<Rightarrow>
             Next (st\<lparr>p_os := ''{'' # p_os st,
                      p_as := \<lparr>oslen = length (''{'' # p_os st), eslen = length (p_es st),
                                arg_args = []\<rparr> # p_as st\<rparr>,
                   EXPR_PAREN_ALLOWED)
         | EXPR_PAREN_ALLOWED \<Rightarrow> Next (st\<lparr>p_os := ''('' # p_os st\<rparr>, EXPR_PAREN_ALLOWED)
         | EXPR_PAREN_FORBIDDEN \<Rightarrow> Cleanup (st, EXPR_PAREN_ALLOWED))
      else if p_paren st = EXPR_PAREN_EXPECTED then Cleanup (st, EXPR_PAREN_ALLOWED)
      else if tok = '')'' then
        (case close_paren funcs st of
           Next st' \<Rightarrow> Next (st', EXPR_PAREN_FORBIDDEN)
         | Cleanup st' \<Rightarrow> Cleanup (st', EXPR_PAREN_ALLOWED)
         | Undefined \<Rightarrow> Undefined)
      else if \<not> isnan (expr_parse_number h tok) then
        Next (st\<lparr>p_es := expr_const (expr_parse_number h tok) # p_es st\<rparr>, EXPR_PAREN_FORBIDDEN)
      else if expr_op tok (- 1) \<noteq> OP_UNKNOWN then
        (case shunt tok (p_os st) (p_es st) (p_as st) of
           Next (os, es, as) \<Rightarrow>
             Next (st\<lparr>p_es := es, p_os := os, p_as := as\<rparr>, EXPR_PAREN_ALLOWED)
         | Cleanup (os, es, as) \<Rightarrow> Cleanup (st, EXPR_PAREN_ALLOWED)
         | Undefined \<Rightarrow> Undefined)
      else if tok \<noteq> [] \<and> \<not> isdigit (first_char tok) then
        Next (st\<lparr>p_id := tok\<rparr>, EXPR_PAREN_ALLOWED)
      else Cleanup (st, EXPR_PAREN_ALLOWED))"

text \<open>
  One turn of the loop of \<^verbatim>\<open>expr_create\<close> on the token \<open>tok\<close>, the flags being as the
  tokenizer left them: a comment is skipped; after a unary operator a lexeme of one
  character must be \<^verbatim>\<open>-\<close>, \<^verbatim>\<open>^\<close> or \<^verbatim>\<open>!\<close> and becomes \<^verbatim>\<open>-u\<close>, \<^verbatim>\<open>^u\<close> or \<^verbatim>\<open>!u\<close>; a newline that
  comes with the \<^verbatim>\<open>EXPR_COMMA\<close> flag becomes a comma; other space is skipped.
\<close>

definition unary_rewrite :: "string \<Rightarrow> flags \<Rightarrow> string option" where
  "unary_rewrite tok fl =
     (if EXPR_UNARY \<in> fl \<and> length tok = 1 then
        (if first_char tok = CHR ''-'' then Some ''-u''
         else if first_char tok = CHR ''^'' then Some ''^u''
         else if first_char tok = CHR ''!'' then Some ''!u''
         else None)
      else Some tok)"

definition newline_comma :: "string \<Rightarrow> flags \<Rightarrow> string \<times> flags" where
  "newline_comma tok fl =
     (if first_char tok = CHR 0x0A \<and> EXPR_COMMA \<in> fl then ('','', fl - {EXPR_COMMA})
      else (tok, fl))"

definition parse_token :: "'h host \<Rightarrow> expr_func list \<Rightarrow> string \<Rightarrow> pstate \<Rightarrow> pstate step" where
  "parse_token h funcs tok0 st =
     (if first_char tok0 = CHR ''#'' then Next st
      else
        (case unary_rewrite tok0 (p_flags st) of
           None \<Rightarrow> Cleanup st
         | Some tok1 \<Rightarrow>
             (case newline_comma tok1 (p_flags st) of
                (tok, fl) \<Rightarrow>
                  if isspace (first_char tok) then Next (st\<lparr>p_flags := fl\<rparr>)
                  else
                    (case resolve_id funcs tok (st\<lparr>p_flags := fl\<rparr>) of
                       Next st1 \<Rightarrow>
                         (case dispatch h funcs tok st1 of
                            Next (st2, paren_next) \<Rightarrow> Next (st2\<lparr>p_paren := paren_next\<rparr>)
                          | Cleanup (st2, paren_next) \<Rightarrow> Cleanup st2
                          | Undefined \<Rightarrow> Undefined)
                     | r \<Rightarrow> r))))"

lemma expr_next_token_Nil: "expr_next_token [] fl = (0, fl)"
  by (simp add: expr_next_token_def)

lemma expr_next_token_progress:
  "(n, fl') = expr_next_token s fl \<Longrightarrow>
     n \<noteq> 0 \<longrightarrow> \<not> n < 0 \<longrightarrow> length s - nat n < length s"
  using expr_next_token_Nil [of fl] by (cases s) auto

text \<open>
  The loop of \<^verbatim>\<open>expr_create\<close>, from the rest \<open>s\<close> of the input: it ends at the end of the
  input, or in \<^verbatim>\<open>cleanup\<close> on a negative code of the tokenizer or a failure of the turn.
\<close>

function expr_loop :: "'h host \<Rightarrow> expr_func list \<Rightarrow> string \<Rightarrow> pstate \<Rightarrow> pstate step" where
  "expr_loop h funcs s st =
     (case expr_next_token s (p_flags st) of
        (n, fl) \<Rightarrow>
          if n = 0 then Next (st\<lparr>p_flags := fl\<rparr>)
          else if n < 0 then Cleanup (st\<lparr>p_flags := fl\<rparr>)
          else
            (case parse_token h funcs (take (nat n) s) (st\<lparr>p_flags := fl\<rparr>) of
               Next st' \<Rightarrow> expr_loop h funcs (drop (nat n) s) st'
             | r \<Rightarrow> r))"
  by pat_completeness auto
termination
  by (relation "measure (\<lambda>(h, funcs, s, st). length s)")
    (auto dest!: expr_next_token_progress)

declare expr_loop.simps [simp del]

text \<open>
  After the loop: a word still kept is a variable; the operators left are bound, and a
  parenthesis among them is an error; the tree is the top of \<^verbatim>\<open>es\<close>, or the constant \<open>0\<close>.
\<close>

fun drain :: "string list \<Rightarrow> expr list \<Rightarrow> expr list option" where
  "drain [] es = Some es"
| "drain (rest # os) es =
     (if rest = ''('' \<or> rest = '')'' then None
      else (case expr_bind rest es of None \<Rightarrow> None | Some es' \<Rightarrow> drain os es'))"

definition finish :: "pstate \<Rightarrow> (expr option \<times> expr_var list) option" where
  "finish st =
     (case (if p_id st \<noteq> [] then
              (case expr_var (p_vars st) (p_id st) of
                 (Some k, vs) \<Rightarrow> Some (expr_varref k # p_es st, vs)
               | (None, vs) \<Rightarrow> None)
            else Some (p_es st, p_vars st))
      of None \<Rightarrow> None
       | Some (es, vs) \<Rightarrow>
           (case drain (p_os st) es of
              None \<Rightarrow> Some (None, vs)
            | Some [] \<Rightarrow> Some (Some (Const fzero), vs)
            | Some (e # _) \<Rightarrow> Some (Some e, vs)))"

text \<open>
  \<^verbatim>\<open>expr_create(s, len, vars, funcs)\<close>. The result is \<open>None\<close> where the behaviour is
  undefined; otherwise the tree, or \<open>None\<close> for the null pointer of a rejected input,
  and the variables, which a rejected input may have added to as well.
\<close>

definition init_state :: "expr_var list \<Rightarrow> pstate" where
  "init_state vs =
     \<lparr>p_es = [], p_os = [], p_as = [], p_macros = [], p_id = [], p_flags = EXPR_TDEFAULT,
      p_paren = EXPR_PAREN_ALLOWED, p_vars = vs\<rparr>"

definition expr_create ::
  "'h host \<Rightarrow> string \<Rightarrow> expr_var list \<Rightarrow> expr_func list \<Rightarrow> (expr option \<times> expr_var list) option" where
  "expr_create h s vs funcs =
     (case expr_loop h funcs s (init_state vs) of
        Next st \<Rightarrow> finish st
      | Cleanup st \<Rightarrow> Some (None, p_vars st)
      | Undefined \<Rightarrow> None)"

text \<open>
  The reading of the number \<open>n\<close> that \<^verbatim>\<open>expr_next_token\<close> returns on the input \<open>s\<close> with the
  flags \<open>fl\<close>: zero at the end of the input only, the length of a lexeme when positive, and
  each negative code with the condition under which it is returned.
\<close>

definition token_codes :: "string \<Rightarrow> flags \<Rightarrow> int \<Rightarrow> bool" where
  "token_codes s fl n \<longleftrightarrow>
     (n = 0 \<longleftrightarrow> s = []) \<and>
     (0 < n \<longrightarrow> n \<le> int (length s)) \<and>
     (n < 0 \<longrightarrow> n = - 1 \<or> n = - 2 \<or> n = - 3 \<or> n = - 4 \<or> n = - 5) \<and>
     (n = - 1 \<longleftrightarrow> s \<noteq> [] \<and> isdigit (hd s) \<and> EXPR_TNUMBER \<notin> fl) \<and>
     (n = - 2 \<longleftrightarrow> s \<noteq> [] \<and> isfirstvarchr (hd s) \<and> EXPR_TWORD \<notin> fl) \<and>
     (n = - 3 \<longleftrightarrow> s \<noteq> [] \<and> (hd s = CHR ''('' \<and> EXPR_TOPEN \<notin> fl \<or>
                              hd s = CHR '')'' \<and> EXPR_TCLOSE \<notin> fl)) \<and>
     (n = - 4 \<longleftrightarrow> s \<noteq> [] \<and> op_start (hd s) \<and> EXPR_TOP \<notin> fl \<and>
                 hd s \<noteq> CHR ''-'' \<and> hd s \<noteq> CHR ''!'' \<and> hd s \<noteq> CHR ''^'') \<and>
     (n = - 5 \<longleftrightarrow> s \<noteq> [] \<and> op_start (hd s) \<and> EXPR_TOP \<in> fl \<and>
                 (\<forall>k < length (takeWhile opchr s). expr_op (take (Suc k) s) 0 = OP_UNKNOWN))"

text \<open>
  The length of a lexeme. \<open>longest_prefix P s n\<close>: the first \<open>n\<close> characters of \<open>s\<close> satisfy
  \<open>P\<close> and the next one, if there is one, does not. \<open>operator_lexeme s n\<close>: the first \<open>n\<close>
  characters of \<open>s\<close> are operator characters; some prefix of them is a binary operator, the
  shortest such being \<open>k + 1\<close> characters long, and every prefix from that one up to all \<open>n\<close>
  characters is a binary operator; one more operator character, if there is one, gives a
  prefix that is not. Each of the two holds of one \<open>n\<close> at most.
\<close>

definition longest_prefix :: "(char \<Rightarrow> bool) \<Rightarrow> string \<Rightarrow> nat \<Rightarrow> bool" where
  "longest_prefix P s n \<longleftrightarrow>
     n \<le> length s \<and> (\<forall>j < n. P (s ! j)) \<and> (n < length s \<longrightarrow> \<not> P (s ! n))"

definition operator_lexeme :: "string \<Rightarrow> nat \<Rightarrow> bool" where
  "operator_lexeme s n \<longleftrightarrow>
     n \<le> length s \<and> (\<forall>j < n. opchr (s ! j)) \<and>
     (\<exists>k < n. (\<forall>j < k. expr_op (take (Suc j) s) 0 = OP_UNKNOWN) \<and>
              (\<forall>j. k \<le> j \<and> j < n \<longrightarrow> expr_op (take (Suc j) s) 0 \<noteq> OP_UNKNOWN)) \<and>
     (n < length s \<and> opchr (s ! n) \<longrightarrow> expr_op (take (Suc n) s) 0 = OP_UNKNOWN)"

text \<open>The state of the parser after the number \<^verbatim>\<open>1\<close> and a newline that more input follows.\<close>

definition after_one :: pstate where
  "after_one =
     \<lparr>p_es = [Const fone], p_os = [], p_as = [], p_macros = [], p_id = [],
      p_flags = {EXPR_TNUMBER, EXPR_TWORD, EXPR_TOPEN, EXPR_COMMA},
      p_paren = EXPR_PAREN_FORBIDDEN, p_vars = []\<rparr>"

section \<open>Facts about the values\<close>

lemma floor_numeral_div:
  "\<lfloor>(numeral a :: rat) / numeral b\<rfloor> = numeral a div numeral b"
  using floor_divide_of_int_eq [of "numeral a" "numeral b", where ?'a = rat] by simp

lemmas float_fields = fexp_def ffrac_def fsign_def

lemmas float_eval =
  float_fields isnan_def isinf_def finite_float_def valof_def trunc_def floor_numeral_div

lemma finite_not_special: "finite_float x \<Longrightarrow> \<not> isnan x \<and> isinf x = 0"
  by (simp add: finite_float_def isnan_def isinf_def)

lemma isinf_not_nan: "isinf x \<noteq> 0 \<Longrightarrow> \<not> isnan x"
  by (auto simp: isinf_def isnan_def split: if_splits)

lemma to_int_nan: "isnan x \<Longrightarrow> to_int x = Some 0"
  by (simp add: to_int_def)

lemma to_int_pos_inf: "isinf x = 1 \<Longrightarrow> to_int x = Some INT_MAX"
  using isinf_not_nan [of x] by (simp add: to_int_def)

lemma to_int_neg_inf: "isinf x = - 1 \<Longrightarrow> to_int x = Some (- INT_MAX)"
  using isinf_not_nan [of x] by (simp add: to_int_def)

lemma to_int_finite:
  assumes "finite_float x" "- (2 ^ 31) \<le> trunc (valof x)" "trunc (valof x) < 2 ^ 31"
  shows "\<exists>w. to_int x = Some w \<and> sint w = trunc (valof x)"
proof -
  have "to_int x = int_of_float x"
    using finite_not_special [OF assms(1)] by (simp add: to_int_def)
  moreover have "int_of_float x = Some (word_of_int (trunc (valof x)))"
    using assms by (simp add: int_of_float_def)
  moreover have "sint (word_of_int (trunc (valof x)) :: cint) = trunc (valof x)"
    using assms(2,3) by (simp add: sint_sbintrunc' signed_take_bit_int_eq_self)
  ultimately show ?thesis by simp
qed

lemma to_int_examples:
  "to_int (Float 0xC0490FDB) = Some (- 3) \<and> to_int (Float 0x40A00000) = Some 5 \<and>
   to_int (Float 0x40400000) = Some 3"
  by (simp add: to_int_def int_of_float_def float_eval)

lemma of_cint_examples: "of_cint 1 = Float 0x3F800000 \<and> of_cint (- 6) = Float 0xC0C00000"
  by (simp add: of_cint_def float_of_int_def bit_length.simps)

section \<open>Facts about the evaluator\<close>

lemma binop_Some:
  "binop f (Some (x, y, st)) = (case f x y of None \<Rightarrow> None | Some v \<Rightarrow> Some (v, st))"
  by (simp add: binop_def)

lemma unop_Some:
  "unop f (Some (x, st)) = (case f x of None \<Rightarrow> None | Some v \<Rightarrow> Some (v, st))"
  by (simp add: unop_def)

section \<open>Integer coercion\<close>

text \<open>
  Claim C3, as the code has it. \<^verbatim>\<open>to_int\<close> maps every NaN to \<open>0\<close> and \<open>+\<infinity>\<close> to
  \<^verbatim>\<open>INT_MAX\<close>. It maps \<open>-\<infinity>\<close> to \<^verbatim>\<open>-INT_MAX\<close>, the product of \<^verbatim>\<open>INT_MAX\<close> and the sign that
  \<^verbatim>\<open>isinf\<close> returns, which is \<^verbatim>\<open>INT_MIN + 1\<close>. A finite value whose truncation toward zero
  is an \<^verbatim>\<open>int\<close> is mapped to that truncation. The shift and bitwise operators
  (\<^verbatim>\<open><< >> & | ^ ~\<close>) apply \<^verbatim>\<open>to_int\<close> to each operand value, operate on the integers and
  convert the result back.
\<close>

theorem to_int_coercion:
  fixes h :: "'h host"
  defines "route \<equiv> \<lambda>f x y st.
     (case to_int x of None \<Rightarrow> None
      | Some i \<Rightarrow> (case to_int y of None \<Rightarrow> None
          | Some j \<Rightarrow> (case f i j of None \<Rightarrow> None | Some r \<Rightarrow> Some (of_cint r, st))))"
  shows
  "(isnan a \<longrightarrow> to_int a = Some 0) \<and>
   (isinf b = 1 \<longrightarrow> to_int b = Some INT_MAX) \<and>
   (isinf c = - 1 \<longrightarrow> to_int c = Some (- INT_MAX)) \<and>
   (finite_float d \<and> - (2 ^ 31) \<le> trunc (valof d) \<and> trunc (valof d) < 2 ^ 31 \<longrightarrow>
      (\<exists>w. to_int d = Some w \<and> sint w = trunc (valof d))) \<and>
   (eval_args (expr_eval h) (lhs_first h t) args st = Some (x, y, st2) \<longrightarrow>
      (t = OP_SHL \<longrightarrow> expr_eval h (Op t args) st = route c_shl x y st2) \<and>
      (t = OP_SHR \<longrightarrow> expr_eval h (Op t args) st = route c_shr x y st2) \<and>
      (t = OP_BITWISE_AND \<longrightarrow>
         expr_eval h (Op t args) st = route (\<lambda>i j. Some (i AND j)) x y st2) \<and>
      (t = OP_BITWISE_OR \<longrightarrow>
         expr_eval h (Op t args) st = route (\<lambda>i j. Some (i OR j)) x y st2) \<and>
      (t = OP_BITWISE_XOR \<longrightarrow>
         expr_eval h (Op t args) st = route (\<lambda>i j. Some (i XOR j)) x y st2)) \<and>
   (eval_arg (expr_eval h) args' st' = Some (z, st1) \<longrightarrow>
      expr_eval h (Op OP_UNARY_BITWISE_NOT args') st' =
        (case to_int z of None \<Rightarrow> None | Some i \<Rightarrow> Some (of_cint (NOT i), st1)))"
proof -
  have "eval_args (expr_eval h) (lhs_first h t) args st = Some (x, y, st2) \<Longrightarrow>
      (t = OP_SHL \<longrightarrow> expr_eval h (Op t args) st = route c_shl x y st2) \<and>
      (t = OP_SHR \<longrightarrow> expr_eval h (Op t args) st = route c_shr x y st2) \<and>
      (t = OP_BITWISE_AND \<longrightarrow>
         expr_eval h (Op t args) st = route (\<lambda>i j. Some (i AND j)) x y st2) \<and>
      (t = OP_BITWISE_OR \<longrightarrow>
         expr_eval h (Op t args) st = route (\<lambda>i j. Some (i OR j)) x y st2) \<and>
      (t = OP_BITWISE_XOR \<longrightarrow>
         expr_eval h (Op t args) st = route (\<lambda>i j. Some (i XOR j)) x y st2)"
    by (auto simp: binop_Some int_view_def route_def split: option.splits)
  moreover have "eval_arg (expr_eval h) args' st' = Some (z, st1) \<Longrightarrow>
      expr_eval h (Op OP_UNARY_BITWISE_NOT args') st' =
        (case to_int z of None \<Rightarrow> None | Some i \<Rightarrow> Some (of_cint (NOT i), st1))"
    by (auto simp: unop_Some split: option.splits)
  ultimately show ?thesis
    using to_int_nan [of a] to_int_pos_inf [of b] to_int_neg_inf [of c] to_int_finite [of d]
    by blast
qed

text \<open>
  The theorem of C3 at a NaN, at both infinities, at \<open>-3.14159\<close>, at \<^verbatim>\<open>5 & 3\<close> and at
  \<^verbatim>\<open>^5\<close> (bitwise not), which are \<open>1\<close> and \<open>-6\<close>.
\<close>

theorem to_int_coercion_witness:
  "isnan NAN \<and> to_int NAN = Some 0 \<and>
   isinf (Float 0x7F800000) = 1 \<and> to_int (Float 0x7F800000) = Some INT_MAX \<and>
   isinf (Float 0xFF800000) = - 1 \<and> to_int (Float 0xFF800000) = Some (- INT_MAX) \<and>
   finite_float (Float 0xC0490FDB) \<and> trunc (valof (Float 0xC0490FDB)) = - 3 \<and>
   (\<exists>w. to_int (Float 0xC0490FDB) = Some w \<and> sint w = - 3) \<and>
   eval_args (expr_eval int_host) (lhs_first int_host OP_BITWISE_AND)
     [Const (Float 0x40A00000), Const (Float 0x40400000)] st0 =
     Some (Float 0x40A00000, Float 0x40400000, st0) \<and>
   expr_eval int_host (Op OP_BITWISE_AND [Const (Float 0x40A00000), Const (Float 0x40400000)]) st0 =
     Some (Float 0x3F800000, st0) \<and>
   expr_eval int_host (Op OP_UNARY_BITWISE_NOT [Const (Float 0x40A00000)]) st0 =
     Some (Float 0xC0C00000, st0)"
proof -
  have e: "eval_args (expr_eval int_host) (lhs_first int_host OP_BITWISE_AND)
     [Const (Float 0x40A00000), Const (Float 0x40400000)] st0 =
     Some (Float 0x40A00000, Float 0x40400000, st0)"
    by (simp add: eval_args_def int_host_def)
  have u: "eval_arg (expr_eval int_host) [Const (Float 0x40A00000)] st0 =
     Some (Float 0x40A00000, st0)"
    by (simp add: eval_arg_def)
  have n: "isnan NAN" "isinf (Float 0x7F800000) = 1" "isinf (Float 0xFF800000) = - 1"
    "finite_float (Float 0xC0490FDB)" "trunc (valof (Float 0xC0490FDB)) = - 3"
    by (simp_all add: NAN_def float_eval)
  show ?thesis
    using to_int_coercion [of NAN "Float 0x7F800000" "Float 0xFF800000" "Float 0xC0490FDB"
        int_host OP_BITWISE_AND "[Const (Float 0x40A00000), Const (Float 0x40400000)]" st0
        "Float 0x40A00000" "Float 0x40400000" st0 "[Const (Float 0x40A00000)]" st0
        "Float 0x40A00000" st0]
      e u n to_int_examples of_cint_examples
    by simp
qed

text \<open>
  Claim C3 as the specification words it fails at \<open>-\<infinity>\<close>, which \<^verbatim>\<open>to_int\<close> does not map to
  \<^verbatim>\<open>INT_MIN\<close>, and at the finite value \<open>2 ^ 31\<close>, whose truncation is no \<^verbatim>\<open>int\<close>: the cast
  is undefined there.
\<close>

theorem to_int_coercion_counterexample:
  "isinf (Float 0xFF800000) = - 1 \<and>
   to_int (Float 0xFF800000) = Some (- INT_MAX) \<and>
   to_int (Float 0xFF800000) \<noteq> Some INT_MIN \<and>
   finite_float (Float 0x4F000000) \<and>
   trunc (valof (Float 0x4F000000)) = 2147483648 \<and>
   to_int (Float 0x4F000000) = None"
  by (simp add: to_int_def int_of_float_def float_eval INT_MAX_def INT_MIN_def)

lemma of_cint_c_bool: "of_cint (c_bool b) = (if b then fone else fzero)"
  by (simp add: of_cint_def c_bool_def float_of_int_def bit_length.simps fone_def fzero_def)

text \<open>The truth test \<^verbatim>\<open>n != 0\<close> fails at the two zeros only.\<close>

lemma nonzero_iff: "nonzero n \<longleftrightarrow> \<not> (fexp n = 0 \<and> ffrac n = 0)"
proof -
  have z: "\<not> isnan fzero" "valof fzero = 0"
    by (simp_all add: fzero_def float_eval)
  have "valof n = 0 \<longleftrightarrow> fexp n = 0 \<and> ffrac n = 0"
    by (auto simp: valof_def Let_def)
  moreover have "isnan n \<Longrightarrow> fexp n \<noteq> 0"
    by (simp add: isnan_def)
  ultimately show ?thesis
    using z by (auto simp: nonzero_def fne_def feq_def)
qed

lemma nonzero_examples:
  "nonzero (Float 0x40A00000) \<and> nonzero (Float 0x40E00000) \<and> nonzero fone \<and>
   \<not> nonzero fzero \<and> nonzero NAN \<and> \<not> nonzero (Float 0x80000000)"
  by (simp add: nonzero_iff fzero_def fone_def NAN_def float_fields)

lemma cmp_examples:
  "flt fone (Float 0x40A00000) \<and> \<not> fge fone (Float 0x40A00000) \<and> isnan NAN \<and>
   \<not> isnan (Float 0x40A00000)"
  by (simp add: flt_def fge_def fone_def NAN_def float_eval)

lemma int_host_add: "fadd int_host fzero (Float 0x40A00000) = Float 0x40A00000"
  by (simp add: int_host_def on_ints_def fzero_def float_eval float_of_int_def
      bit_length.simps)

section \<open>Short-circuit conjunction\<close>

text \<open>
  Claim C1. On a node \<^verbatim>\<open>LogicalAnd(a, b)\<close> the evaluator evaluates \<open>a\<close> first (so an
  undefined \<open>a\<close> makes the node undefined). If the value of \<open>a\<close> is zero the result is
  \<open>0\<close> in the state \<open>a\<close> left, whatever \<open>b\<close> is: \<open>b\<close> is not evaluated and none of its
  effects occurs. Otherwise \<open>b\<close> is evaluated in the state \<open>a\<close> left, and the result is the
  value of \<open>b\<close> if that is not zero, else \<open>0\<close>.
\<close>

theorem logical_and_short_circuit:
  "(expr_eval h a st = None \<longrightarrow> expr_eval h (Op OP_LOGICAL_AND [a, b]) st = None) \<and>
   (expr_eval h a st = Some (n, st1) \<and> \<not> nonzero n \<longrightarrow>
      expr_eval h (Op OP_LOGICAL_AND [a, b]) st = Some (fzero, st1)) \<and>
   (expr_eval h a st = Some (n, st1) \<and> nonzero n \<longrightarrow>
      expr_eval h (Op OP_LOGICAL_AND [a, b]) st =
        (case expr_eval h b st1 of None \<Rightarrow> None
         | Some (m, st2) \<Rightarrow> Some (if nonzero m then m else fzero, st2)))"
  by (auto split: option.splits)

text \<open>
  The theorem of C1 at \<^verbatim>\<open>0 && (b = 1)\<close>, which is \<open>0\<close> and leaves \<^verbatim>\<open>b\<close> alone, and at
  \<^verbatim>\<open>1 && (b = 5)\<close>, which is \<open>5\<close> and has stored it.
\<close>

theorem logical_and_short_circuit_witness:
  "expr_eval int_host (Const fzero) st_b = Some (fzero, st_b) \<and> \<not> nonzero fzero \<and>
   expr_eval int_host (Op OP_LOGICAL_AND [Const fzero, Op OP_ASSIGN [Var 0, Const fone]]) st_b =
     Some (fzero, st_b) \<and>
   expr_eval int_host (Const fone) st_b = Some (fone, st_b) \<and> nonzero fone \<and>
   expr_eval int_host
     (Op OP_LOGICAL_AND [Const fone, Op OP_ASSIGN [Var 0, Const (Float 0x40A00000)]]) st_b =
     Some (Float 0x40A00000,
           st_b\<lparr>vars := [\<lparr>var_name = ''b'', var_value = Float 0x40A00000\<rparr>]\<rparr>)"
proof -
  have b: "expr_eval int_host (Op OP_ASSIGN [Var 0, Const (Float 0x40A00000)]) st_b =
     Some (Float 0x40A00000,
           st_b\<lparr>vars := [\<lparr>var_name = ''b'', var_value = Float 0x40A00000\<rparr>]\<rparr>)"
    by (simp add: st_b_def assign_def)
  show ?thesis
    using logical_and_short_circuit [where h = int_host and a = "Const fzero" and st = st_b
        and n = fzero and ?st1.0 = st_b and b = "Op OP_ASSIGN [Var 0, Const fone]"]
      logical_and_short_circuit [where h = int_host and a = "Const fone" and st = st_b
        and n = fone and ?st1.0 = st_b and b = "Op OP_ASSIGN [Var 0, Const (Float 0x40A00000)]"]
      b nonzero_examples
    by simp
qed

section \<open>Disjunction with its NaN guard\<close>

text \<open>
  Claim C4. On a node \<^verbatim>\<open>LogicalOr(a, b)\<close> the evaluator evaluates \<open>a\<close> first. If the value
  of \<open>a\<close> is not zero and not a NaN, that value is the result, in the state \<open>a\<close> left: \<open>b\<close>
  is not evaluated. Otherwise \<open>b\<close> is evaluated in the state \<open>a\<close> left, and the result is
  the value of \<open>b\<close> if that is not zero, else \<open>0\<close>.
\<close>

theorem logical_or_nan_guard:
  "(expr_eval h a st = None \<longrightarrow> expr_eval h (Op OP_LOGICAL_OR [a, b]) st = None) \<and>
   (expr_eval h a st = Some (n, st1) \<and> nonzero n \<and> \<not> isnan n \<longrightarrow>
      expr_eval h (Op OP_LOGICAL_OR [a, b]) st = Some (n, st1)) \<and>
   (expr_eval h a st = Some (n, st1) \<and> \<not> (nonzero n \<and> \<not> isnan n) \<longrightarrow>
      expr_eval h (Op OP_LOGICAL_OR [a, b]) st =
        (case expr_eval h b st1 of None \<Rightarrow> None
         | Some (m, st2) \<Rightarrow> Some (if nonzero m then m else fzero, st2)))"
  by (auto split: option.splits)

text \<open>
  The theorem of C4 at \<^verbatim>\<open>5 || (b = 1)\<close>, which is \<open>5\<close> and leaves \<^verbatim>\<open>b\<close> alone, and at
  \<^verbatim>\<open>NAN || (b = 5)\<close>, where the NaN, though not zero, does not decide: the result is \<open>5\<close>
  and \<^verbatim>\<open>b\<close> has it.
\<close>

theorem logical_or_nan_guard_witness:
  "expr_eval int_host (Const (Float 0x40A00000)) st_b = Some (Float 0x40A00000, st_b) \<and>
   nonzero (Float 0x40A00000) \<and> \<not> isnan (Float 0x40A00000) \<and>
   expr_eval int_host
     (Op OP_LOGICAL_OR [Const (Float 0x40A00000), Op OP_ASSIGN [Var 0, Const fone]]) st_b =
     Some (Float 0x40A00000, st_b) \<and>
   expr_eval int_host (Const NAN) st_b = Some (NAN, st_b) \<and> nonzero NAN \<and> isnan NAN \<and>
   expr_eval int_host
     (Op OP_LOGICAL_OR [Const NAN, Op OP_ASSIGN [Var 0, Const (Float 0x40A00000)]]) st_b =
     Some (Float 0x40A00000,
           st_b\<lparr>vars := [\<lparr>var_name = ''b'', var_value = Float 0x40A00000\<rparr>]\<rparr>)"
proof -
  have b: "expr_eval int_host (Op OP_ASSIGN [Var 0, Const (Float 0x40A00000)]) st_b =
     Some (Float 0x40A00000,
           st_b\<lparr>vars := [\<lparr>var_name = ''b'', var_value = Float 0x40A00000\<rparr>]\<rparr>)"
    by (simp add: st_b_def assign_def)
  show ?thesis
    using logical_or_nan_guard [where h = int_host and a = "Const (Float 0x40A00000)"
        and st = st_b and n = "Float 0x40A00000" and ?st1.0 = st_b
        and b = "Op OP_ASSIGN [Var 0, Const fone]"]
      logical_or_nan_guard [where h = int_host and a = "Const NAN" and st = st_b
        and n = NAN and ?st1.0 = st_b and b = "Op OP_ASSIGN [Var 0, Const (Float 0x40A00000)]"]
      b nonzero_examples cmp_examples
    by simp
qed

section \<open>Assignment\<close>

lemma deref_assign:
  "assign vs k n = Some vs' \<Longrightarrow> deref vs' j = (if j = k then Some n else deref vs j)"
  by (auto simp: assign_def deref_def split: if_splits)

lemma assign_names: "assign vs k n = Some vs' \<Longrightarrow> map var_name vs' = map var_name vs"
  by (auto simp: assign_def split: if_splits intro!: nth_equalityI simp: nth_list_update)

text \<open>
  Claim C2. On a node \<^verbatim>\<open>Assign(Var h, rhs)\<close> whose handle \<open>h\<close> is that of a live variable,
  the evaluator evaluates \<open>rhs\<close> to a value \<open>n\<close>, stores \<open>n\<close> in the cell of \<open>h\<close> and returns
  \<open>n\<close>. Afterwards the variable reads \<open>n\<close>; no other variable has changed, no name has, and
  the host's memory is as \<open>rhs\<close> left it.
\<close>

theorem assign_as_value:
  assumes "expr_eval h rhs st = Some (n, st1)" "k < length (vars st1)"
  shows "\<exists>st2. expr_eval h (Op OP_ASSIGN [Var k, rhs]) st = Some (n, st2) \<and>
           expr_eval h (Var k) st2 = Some (n, st2) \<and>
           (\<forall>j. j \<noteq> k \<longrightarrow> deref (vars st2) j = deref (vars st1) j) \<and>
           map var_name (vars st2) = map var_name (vars st1) \<and>
           hmem st2 = hmem st1"
proof -
  obtain vs where vs: "assign (vars st1) k n = Some vs"
    using assms(2) by (simp add: assign_def)
  have "expr_eval h (Op OP_ASSIGN [Var k, rhs]) st = Some (n, st1\<lparr>vars := vs\<rparr>)"
    using assms(1) vs by simp
  moreover have "expr_eval h (Var k) (st1\<lparr>vars := vs\<rparr>) = Some (n, st1\<lparr>vars := vs\<rparr>)"
    using deref_assign [OF vs, of k] by simp
  ultimately show ?thesis
    using deref_assign [OF vs] assign_names [OF vs] by auto
qed

text \<open>The theorem of C2 at \<^verbatim>\<open>b = 5\<close>, where \<^verbatim>\<open>b\<close> was \<open>0\<close>.\<close>

theorem assign_as_value_witness:
  "expr_eval int_host (Const (Float 0x40A00000)) st_b = Some (Float 0x40A00000, st_b) \<and>
   0 < length (vars st_b) \<and>
   (\<exists>st2. expr_eval int_host (Op OP_ASSIGN [Var 0, Const (Float 0x40A00000)]) st_b =
            Some (Float 0x40A00000, st2) \<and>
          expr_eval int_host (Var 0) st2 = Some (Float 0x40A00000, st2) \<and>
          map var_name (vars st2) = [''b''])"
proof -
  have e: "expr_eval int_host (Const (Float 0x40A00000)) st_b = Some (Float 0x40A00000, st_b)"
    by simp
  have l: "0 < length (vars st_b)"
    by (simp add: st_b_def)
  have "map var_name (vars st_b) = [''b'']"
    by (simp add: st_b_def)
  then show ?thesis
    using assign_as_value [OF e l] e l by auto
qed

section \<open>The values of comparisons and logical operators\<close>

text \<open>
  Claim C7, as the code has it. A comparison node (\<^verbatim>\<open>< <= > >= == !=\<close>) whose operands
  evaluate, and a \<^verbatim>\<open>LogicalNot\<close> node whose operand evaluates, evaluate to exactly \<open>0.0\<close> or
  \<open>1.0\<close>. A \<^verbatim>\<open>LogicalAnd\<close> or \<^verbatim>\<open>LogicalOr\<close> node evaluates to \<open>0.0\<close> or to the value, as it
  is, of the operand that decided it: of \<open>b\<close> for a conjunction, of \<open>a\<close> or \<open>b\<close> for a
  disjunction.
\<close>

theorem comparison_logical_values:
  "(t \<in> {OP_LT, OP_LE, OP_GT, OP_GE, OP_EQ, OP_NE} \<and>
    eval_args (expr_eval h) (lhs_first h t) args st = Some (x, y, st2) \<longrightarrow>
      (\<exists>v. expr_eval h (Op t args) st = Some (v, st2) \<and> (v = fzero \<or> v = fone))) \<and>
   (eval_arg (expr_eval h) args' st' = Some (z, st1) \<longrightarrow>
      (\<exists>v. expr_eval h (Op OP_UNARY_LOGICAL_NOT args') st' = Some (v, st1) \<and>
           (v = fzero \<or> v = fone))) \<and>
   (expr_eval h (Op OP_LOGICAL_AND [a, b]) s = Some (v, s') \<longrightarrow>
      v = fzero \<or> nonzero v \<and> (\<exists>s1. expr_eval h b s1 = Some (v, s'))) \<and>
   (expr_eval h (Op OP_LOGICAL_OR [a, b]) s = Some (v, s') \<longrightarrow>
      v = fzero \<or>
      nonzero v \<and> (expr_eval h a s = Some (v, s') \<or> (\<exists>s1. expr_eval h b s1 = Some (v, s'))))"
proof -
  have cmp: "t \<in> {OP_LT, OP_LE, OP_GT, OP_GE, OP_EQ, OP_NE} \<Longrightarrow>
    eval_args (expr_eval h) (lhs_first h t) args st = Some (x, y, st2) \<Longrightarrow>
      (\<exists>v. expr_eval h (Op t args) st = Some (v, st2) \<and> (v = fzero \<or> v = fone))"
    by (auto simp: binop_Some of_cint_c_bool)
  have lnot: "eval_arg (expr_eval h) args' st' = Some (z, st1) \<Longrightarrow>
      (\<exists>v. expr_eval h (Op OP_UNARY_LOGICAL_NOT args') st' = Some (v, st1) \<and>
           (v = fzero \<or> v = fone))"
    by (auto simp: unop_Some of_cint_c_bool)
  have land: "expr_eval h (Op OP_LOGICAL_AND [a, b]) s = Some (v, s') \<Longrightarrow>
      v = fzero \<or> nonzero v \<and> (\<exists>s1. expr_eval h b s1 = Some (v, s'))"
    by (auto split: option.splits if_splits) blast+
  have lor: "expr_eval h (Op OP_LOGICAL_OR [a, b]) s = Some (v, s') \<Longrightarrow>
      v = fzero \<or>
      nonzero v \<and> (expr_eval h a s = Some (v, s') \<or> (\<exists>s1. expr_eval h b s1 = Some (v, s')))"
    by (auto split: option.splits if_splits)
  from cmp lnot land lor show ?thesis by blast
qed

text \<open>
  The theorem of C7 at \<^verbatim>\<open>1 < 5\<close> and \<^verbatim>\<open>!5\<close>, which are \<open>1\<close> and \<open>0\<close>, and at \<^verbatim>\<open>5 && 7\<close> and
  \<^verbatim>\<open>0 || 7\<close>, which are both \<open>7\<close>.
\<close>

theorem comparison_logical_values_witness:
  "OP_LT \<in> {OP_LT, OP_LE, OP_GT, OP_GE, OP_EQ, OP_NE} \<and>
   eval_args (expr_eval int_host) (lhs_first int_host OP_LT)
     [Const fone, Const (Float 0x40A00000)] st0 = Some (fone, Float 0x40A00000, st0) \<and>
   expr_eval int_host (Op OP_LT [Const fone, Const (Float 0x40A00000)]) st0 = Some (fone, st0) \<and>
   eval_arg (expr_eval int_host) [Const (Float 0x40A00000)] st0 =
     Some (Float 0x40A00000, st0) \<and>
   expr_eval int_host (Op OP_UNARY_LOGICAL_NOT [Const (Float 0x40A00000)]) st0 =
     Some (fzero, st0) \<and>
   expr_eval int_host
     (Op OP_LOGICAL_AND [Const (Float 0x40A00000), Const (Float 0x40E00000)]) st0 =
     Some (Float 0x40E00000, st0) \<and>
   expr_eval int_host (Op OP_LOGICAL_OR [Const fzero, Const (Float 0x40E00000)]) st0 =
     Some (Float 0x40E00000, st0) \<and>
   nonzero (Float 0x40E00000) \<and>
   expr_eval int_host (Const (Float 0x40E00000)) st0 = Some (Float 0x40E00000, st0)"
proof -
  have e: "eval_args (expr_eval int_host) (lhs_first int_host OP_LT)
     [Const fone, Const (Float 0x40A00000)] st0 = Some (fone, Float 0x40A00000, st0)"
    by (simp add: eval_args_def int_host_def)
  have u: "eval_arg (expr_eval int_host) [Const (Float 0x40A00000)] st0 =
     Some (Float 0x40A00000, st0)"
    by (simp add: eval_arg_def)
  have a: "expr_eval int_host
     (Op OP_LOGICAL_AND [Const (Float 0x40A00000), Const (Float 0x40E00000)]) st0 =
     Some (Float 0x40E00000, st0)"
    using nonzero_examples by simp
  have b: "expr_eval int_host (Op OP_LOGICAL_OR [Const fzero, Const (Float 0x40E00000)]) st0 =
     Some (Float 0x40E00000, st0)"
    using nonzero_examples by simp
  show ?thesis
    using comparison_logical_values [where h = int_host and t = OP_LT
        and args = "[Const fone, Const (Float 0x40A00000)]" and st = st0 and x = fone
        and y = "Float 0x40A00000" and ?st2.0 = st0
        and args' = "[Const (Float 0x40A00000)]" and st' = st0 and z = "Float 0x40A00000"
        and ?st1.0 = st0 and a = "Const (Float 0x40A00000)" and b = "Const (Float 0x40E00000)"
        and s = st0 and v = "Float 0x40E00000" and s' = st0]
      e u a b nonzero_examples cmp_examples
    by (simp add: binop_Some unop_Some of_cint_c_bool)
qed

text \<open>
  Claim C7 as the specification words it fails on the logical connectives: \<^verbatim>\<open>5 && 7\<close>
  evaluates to \<open>7\<close>, which is neither \<open>0.0\<close> nor \<open>1.0\<close>.
\<close>

theorem comparison_logical_values_counterexample:
  "expr_eval int_host
     (Op OP_LOGICAL_AND [Const (Float 0x40A00000), Const (Float 0x40E00000)]) st0 =
     Some (Float 0x40E00000, st0) \<and>
   Float 0x40E00000 \<noteq> fzero \<and> Float 0x40E00000 \<noteq> fone"
  using nonzero_examples by (simp add: fzero_def fone_def)

section \<open>The frame of evaluation\<close>

lemma eval_arg_frame:
  assumes "\<And>a s v s'. a \<in> set args \<Longrightarrow> ev a s = Some (v, s') \<Longrightarrow> s' = s"
    and "eval_arg ev args st = Some (v, st')"
  shows "st' = st"
  using assms by (auto simp: eval_arg_def split: list.splits)

lemma eval_args_frame:
  assumes "\<And>a s v s'. a \<in> set args \<Longrightarrow> ev a s = Some (v, s') \<Longrightarrow> s' = s"
    and "eval_args ev lf args st = Some (x, y, st')"
  shows "st' = st"
proof (cases args)
  case Nil
  with assms(2) show ?thesis by (simp add: eval_args_def)
next
  case (Cons a rest)
  show ?thesis
  proof (cases rest)
    case Nil
    with Cons assms(2) show ?thesis by (simp add: eval_args_def)
  next
    case (Cons b more)
    have ma: "a \<in> set args" and mb: "b \<in> set args"
      using \<open>args = a # rest\<close> Cons by simp_all
    show ?thesis
      using assms(2) assms(1) [OF ma] assms(1) [OF mb] \<open>args = a # rest\<close> Cons
      by (fastforce simp: eval_args_def split: if_splits option.splits)
  qed
qed

lemma unop_frame: "unop f r = Some (v, st') \<Longrightarrow> \<exists>x. r = Some (x, st')"
  by (auto simp: unop_def split: option.splits)

lemma binop_frame: "binop f r = Some (v, st') \<Longrightarrow> \<exists>x y. r = Some (x, y, st')"
  by (auto simp: binop_def split: option.splits)



lemma split_tags:
  assumes "t \<noteq> OP_ASSIGN"
  obtains
      (un) "t \<in> {OP_UNARY_MINUS, OP_UNARY_LOGICAL_NOT, OP_UNARY_BITWISE_NOT}"
    | (bin) "t \<in> {OP_POWER, OP_MULTIPLY, OP_DIVIDE, OP_REMAINDER, OP_PLUS, OP_MINUS, OP_SHL,
        OP_SHR, OP_LT, OP_LE, OP_GT, OP_GE, OP_EQ, OP_NE, OP_BITWISE_AND, OP_BITWISE_OR,
        OP_BITWISE_XOR}"
    | (lazy) "t \<in> {OP_LOGICAL_AND, OP_LOGICAL_OR, OP_COMMA}"
    | (rest) "t \<in> {OP_UNKNOWN, OP_CONST, OP_VAR, OP_FUNC}"
  using assms by (cases t) simp_all

lemma eval_unary_shape:
  assumes "t \<in> {OP_UNARY_MINUS, OP_UNARY_LOGICAL_NOT, OP_UNARY_BITWISE_NOT}"
  shows "\<exists>f. expr_eval h (Op t args) st = unop f (eval_arg (expr_eval h) args st)"
  using assms by (elim insertE emptyE) (simp_all, blast+)


lemma eval_binary_shape:
  assumes "t \<in> {OP_POWER, OP_MULTIPLY, OP_DIVIDE, OP_REMAINDER, OP_PLUS, OP_MINUS, OP_SHL,
        OP_SHR, OP_LT, OP_LE, OP_GT, OP_GE, OP_EQ, OP_NE, OP_BITWISE_AND, OP_BITWISE_OR,
        OP_BITWISE_XOR}"
  shows "\<exists>f. expr_eval h (Op t args) st =
           binop f (eval_args (expr_eval h) (lhs_first h t) args st)"
  using assms by (elim insertE emptyE) (simp_all, blast+)

lemma eval_lazy_frame:
  assumes "t \<in> {OP_LOGICAL_AND, OP_LOGICAL_OR, OP_COMMA}"
    and "\<And>a s v s'. a \<in> set args \<Longrightarrow> expr_eval h a s = Some (v, s') \<Longrightarrow> s' = s"
    and "expr_eval h (Op t args) st = Some (v, st')"
  shows "st' = st"
proof (cases args)
  case Nil
  with assms(1,3) show ?thesis by auto
next
  case (Cons a rest)
  have ma: "a \<in> set args" using Cons by simp
  show ?thesis
  proof (cases rest)
    case Nil
    with assms(1,3) Cons assms(2) [OF ma] show ?thesis
      by (auto split: option.splits if_splits)
  next
    case (Cons b more)
    have mb: "b \<in> set args" using \<open>args = a # rest\<close> Cons by simp
    show ?thesis
      using assms(1,3) \<open>args = a # rest\<close> Cons assms(2) [OF ma] assms(2) [OF mb]
      by (elim insertE emptyE) (fastforce split: option.splits if_splits)+
  qed
qed

lemma eval_rest_frame:
  assumes "t \<in> {OP_UNKNOWN, OP_CONST, OP_VAR, OP_FUNC}"
    and "expr_eval h (Op t args) st = Some (v, st')"
  shows "st' = st"
  using assms by auto

text \<open>
  Claim C10. Evaluating a tree that has no \<^verbatim>\<open>Assign\<close> node and no call leaves the state as
  it was: every variable keeps its value (and the host's memory is untouched). The
  \<^verbatim>\<open>OP_ASSIGN\<close> case is the only one in which the evaluator itself writes.
\<close>

theorem eval_frame:
  assumes "no_assign_func e" "expr_eval h e st = Some (v, st')"
  shows "st' = st"
  using assms
proof (induction e arbitrary: st v st')
  case (Op t args)
  have IH: "\<And>a s v s'. a \<in> set args \<Longrightarrow> expr_eval h a s = Some (v, s') \<Longrightarrow> s' = s"
    using Op.IH Op.prems(1) by (simp add: list_all_iff)
  have "t \<noteq> OP_ASSIGN"
    using Op.prems(1) by simp
  then show ?case
  proof (cases t rule: split_tags)
    case un
    from eval_unary_shape [OF un] obtain f
      where f: "expr_eval h (Op t args) st = unop f (eval_arg (expr_eval h) args st)"
      ..
    have "unop f (eval_arg (expr_eval h) args st) = Some (v, st')"
      by (rule trans [OF f [symmetric] Op.prems(2)])
    from unop_frame [OF this] obtain x
      where x: "eval_arg (expr_eval h) args st = Some (x, st')"
      ..
    show ?thesis
      by (rule eval_arg_frame [where ev = "expr_eval h" and args = args, OF IH x])
  next
    case bin
    from eval_binary_shape [OF bin] obtain f
      where f: "expr_eval h (Op t args) st =
        binop f (eval_args (expr_eval h) (lhs_first h t) args st)"
      ..
    have "binop f (eval_args (expr_eval h) (lhs_first h t) args st) = Some (v, st')"
      by (rule trans [OF f [symmetric] Op.prems(2)])
    from binop_frame [OF this] obtain x y
      where xy: "eval_args (expr_eval h) (lhs_first h t) args st = Some (x, y, st')"
      by (elim exE)
    show ?thesis
      by (rule eval_args_frame [where ev = "expr_eval h" and args = args, OF IH xy])
  next
    case lazy
    show ?thesis
      by (rule eval_lazy_frame [OF lazy IH Op.prems(2)])
  next
    case rest
    show ?thesis
      by (rule eval_rest_frame [OF rest Op.prems(2)])
  qed
next
  case (Const x)
  then show ?case by simp
next
  case (Var x)
  then show ?case by (simp split: option.splits)
next
  case (Func f args ctx)
  then show ?case by simp
qed

text \<open>The theorem of C10 at \<^verbatim>\<open>b + 5\<close>, where \<^verbatim>\<open>b\<close> is \<open>0\<close>.\<close>

theorem eval_frame_witness:
  "no_assign_func (Op OP_PLUS [Var 0, Const (Float 0x40A00000)]) \<and>
   expr_eval int_host (Op OP_PLUS [Var 0, Const (Float 0x40A00000)]) st_b =
     Some (Float 0x40A00000, st_b)"
proof -
  have n: "no_assign_func (Op OP_PLUS [Var 0, Const (Float 0x40A00000)])"
    by simp
  obtain v s where e:
    "expr_eval int_host (Op OP_PLUS [Var 0, Const (Float 0x40A00000)]) st_b = Some (v, s)"
    and v: "v = Float 0x40A00000"
    using int_host_add
    by (simp add: st_b_def deref_def eval_args_def binop_def int_host_def)
  have "s = st_b"
    by (rule eval_frame [OF n e])
  with n e v show ?thesis by simp
qed

section \<open>Facts about the tokenizer\<close>

lemmas chr_defs = isdigit_def isfirstvarchr_def isspace_def isvarchr_def

lemmas op_defs = expr_op_def OPS_def expr_is_unary_def

lemmas tok_defs = expr_next_token_def chr_defs op_scan.simps op_defs

lemmas prec_defs = expr_prec_def prec_def prec_table_def expr_is_binary_def

lemmas parse_defs = parse_token_def unary_rewrite_def newline_comma_def first_char_def
  resolve_id_def dispatch_def expr_bind_def close_paren_def finish_call_def finish_def
  expr_const_def expr_varref_def expr_binary_def expr_var_def expr_func_def find_macro_def
  expand_macro_def param_name_def

lemmas loop_defs = expr_create_def init_state_def expr_loop.simps EXPR_TDEFAULT_def



lemma op_scan_ge: "i \<le> fst (op_scan s i found)"
proof (induction s i found rule: op_scan.induct)
  case (1 s i found)
  then show ?case
    by (subst op_scan.simps) auto
qed

lemma op_scan_le: "i \<le> length s \<Longrightarrow> fst (op_scan s i found) \<le> length s"
proof (induction s i found rule: op_scan.induct)
  case (1 s i found)
  then show ?case
    by (subst op_scan.simps) auto
qed

lemma op_scan_gt: "\<not> found \<Longrightarrow> snd (op_scan s i found) \<Longrightarrow> i < fst (op_scan s i found)"
proof (induction s i found rule: op_scan.induct)
  case (1 s i found)
  show ?case
  proof (cases "i < length s \<and> opchr (s ! i)")
    case False
    with 1 show ?thesis
      by (subst (asm) (2) op_scan.simps) (auto simp: opchr_def)
  next
    case True
    show ?thesis
    proof (cases "expr_op (take (i + 1) s) 0 \<noteq> OP_UNKNOWN")
      case True
      have "op_scan s i found = op_scan s (i + 1) True"
        using True \<open>i < length s \<and> opchr (s ! i)\<close>
        by (subst op_scan.simps) (simp add: opchr_def)
      then show ?thesis
        using op_scan_ge [of "i + 1" s True] by simp
    next
      case False
      have "op_scan s i found = op_scan s (i + 1) found"
        using False \<open>i < length s \<and> opchr (s ! i)\<close> 1(3)
        by (subst op_scan.simps) (simp add: opchr_def)
      then show ?thesis
        using 1 False \<open>i < length s \<and> opchr (s ! i)\<close> by (auto simp: opchr_def)
    qed
  qed
qed


lemma takeWhile_length_iff:
  "k < length (takeWhile P s) \<longleftrightarrow> (\<forall>j \<le> k. j < length s \<and> P (s ! j))"
proof (induction s arbitrary: k)
  case Nil
  then show ?case by auto
next
  case (Cons c cs)
  show ?case
  proof (cases "P c")
    case False
    then show ?thesis by auto
  next
    case True
    show ?thesis
    proof (cases k)
      case 0
      with True show ?thesis by simp
    next
      case (Suc k')
      have "(\<forall>j \<le> Suc k'. j < length (c # cs) \<and> P ((c # cs) ! j)) \<longleftrightarrow>
            (\<forall>j \<le> k'. j < length cs \<and> P (cs ! j))"
      proof
        assume a: "\<forall>j \<le> Suc k'. j < length (c # cs) \<and> P ((c # cs) ! j)"
        show "\<forall>j \<le> k'. j < length cs \<and> P (cs ! j)"
        proof (intro allI impI)
          fix j assume "j \<le> k'"
          then have "Suc j \<le> Suc k'" by simp
          with a have "Suc j < length (c # cs) \<and> P ((c # cs) ! Suc j)" by blast
          then show "j < length cs \<and> P (cs ! j)" by simp
        qed
      next
        assume a: "\<forall>j \<le> k'. j < length cs \<and> P (cs ! j)"
        show "\<forall>j \<le> Suc k'. j < length (c # cs) \<and> P ((c # cs) ! j)"
        proof (intro allI impI)
          fix j assume j: "j \<le> Suc k'"
          show "j < length (c # cs) \<and> P ((c # cs) ! j)"
          proof (cases j)
            case 0
            with True show ?thesis by simp
          next
            case (Suc j')
            with j a show ?thesis by simp
          qed
        qed
      qed
      with True Suc Cons.IH [of k'] show ?thesis by simp
    qed
  qed
qed

lemma op_scan_found:
  "snd (op_scan s i found) \<longleftrightarrow>
     found \<or> (\<exists>k. i \<le> k \<and> (\<forall>j. i \<le> j \<and> j \<le> k \<longrightarrow> j < length s \<and> opchr (s ! j)) \<and>
                 expr_op (take (Suc k) s) 0 \<noteq> OP_UNKNOWN)"
  (is "?L s i found \<longleftrightarrow> found \<or> ?R s i")
proof (induction s i found rule: op_scan.induct)
  case (1 s i found)
  show ?case
  proof (cases "i < length s \<and> opchr (s ! i)")
    case False
    have "op_scan s i found = (i, found)"
      using False by (subst op_scan.simps) (auto simp: opchr_def)
    then have "snd (op_scan s i found) = found"
      by simp
    moreover have "\<not> ?R s i"
      using False by auto
    ultimately show ?thesis by blast
  next
    case inr: True
    show ?thesis
    proof (cases "expr_op (take (i + 1) s) 0 \<noteq> OP_UNKNOWN")
      case True
      have e: "op_scan s i found = op_scan s (i + 1) True"
        using True inr by (subst op_scan.simps) (simp add: opchr_def)
      have "snd (op_scan s (i + 1) True)"
        using 1(1) True inr by (simp add: opchr_def)
      moreover have "?R s i"
      proof (intro exI [of _ i] conjI allI impI)
        show "i \<le> i" by simp
        show "expr_op (take (Suc i) s) 0 \<noteq> OP_UNKNOWN" using True by simp
      next
        fix j assume "i \<le> j \<and> j \<le> i"
        then have "j = i" by simp
        with inr show "j < length s" "opchr (s ! j)" by simp_all
      qed
      ultimately show ?thesis using e by simp
    next
      case unk: False
      show ?thesis
      proof (cases found)
        case True
        have "op_scan s i found = (i, found)"
          using True unk inr by (subst op_scan.simps) (simp add: opchr_def)
        with True show ?thesis by simp
      next
        case False
        have e: "op_scan s i found = op_scan s (i + 1) found"
          using False unk inr by (subst op_scan.simps) (simp add: opchr_def)
        have ih: "snd (op_scan s (i + 1) found) \<longleftrightarrow> found \<or> ?R s (i + 1)"
          using 1(2) False unk inr by (simp add: opchr_def)
        have "?R s (i + 1) \<longleftrightarrow> ?R s i"
        proof
          assume "?R s (i + 1)"
          then obtain k where k: "i + 1 \<le> k"
            "\<forall>j. i + 1 \<le> j \<and> j \<le> k \<longrightarrow> j < length s \<and> opchr (s ! j)"
            "expr_op (take (Suc k) s) 0 \<noteq> OP_UNKNOWN"
            by blast
          have "\<forall>j. i \<le> j \<and> j \<le> k \<longrightarrow> j < length s \<and> opchr (s ! j)"
          proof (intro allI impI)
            fix j assume j: "i \<le> j \<and> j \<le> k"
            show "j < length s \<and> opchr (s ! j)"
            proof (cases "j = i")
              case True
              with inr show ?thesis by simp
            next
              case False
              with j have "i + 1 \<le> j \<and> j \<le> k" by simp
              with k(2) show ?thesis by blast
            qed
          qed
          moreover have "i \<le> k" using k(1) by simp
          ultimately show "?R s i" using k(3) by blast
        next
          assume "?R s i"
          then obtain k where k: "i \<le> k"
            "\<forall>j. i \<le> j \<and> j \<le> k \<longrightarrow> j < length s \<and> opchr (s ! j)"
            "expr_op (take (Suc k) s) 0 \<noteq> OP_UNKNOWN"
            by blast
          have "k \<noteq> i" using k(3) unk by auto
          with k(1) have "i + 1 \<le> k" by simp
          moreover have "\<forall>j. i + 1 \<le> j \<and> j \<le> k \<longrightarrow> j < length s \<and> opchr (s ! j)"
            using k(2) by auto
          ultimately show "?R s (i + 1)" using k(3) by blast
        qed
        with e ih show ?thesis by simp
      qed
    qed
  qed
qed

lemma op_scan_found0:
  "snd (op_scan s 0 False) \<longleftrightarrow>
     (\<exists>k < length (takeWhile opchr s). expr_op (take (Suc k) s) 0 \<noteq> OP_UNKNOWN)"
  unfolding op_scan_found takeWhile_length_iff by auto

lemma digit_class:
  "isdigit c \<Longrightarrow> c \<noteq> CHR ''#'' \<and> c \<noteq> CHR 0x0A \<and> \<not> isspace c \<and> \<not> isfirstvarchr c \<and>
     c \<noteq> CHR ''('' \<and> c \<noteq> CHR '')'' \<and> \<not> op_start c"
  by (auto simp: chr_defs op_start_def)

lemma word_class:
  "isfirstvarchr c \<Longrightarrow> c \<noteq> CHR ''#'' \<and> c \<noteq> CHR 0x0A \<and> \<not> isspace c \<and> \<not> isdigit c \<and>
     c \<noteq> CHR ''('' \<and> c \<noteq> CHR '')'' \<and> \<not> op_start c \<and> isvarchr c"
  by (auto simp: chr_defs op_start_def)

lemma space_class:
  "isspace c \<Longrightarrow> c \<noteq> CHR ''#'' \<and> \<not> isdigit c \<and> \<not> isfirstvarchr c \<and>
     c \<noteq> CHR ''('' \<and> c \<noteq> CHR '')'' \<and> \<not> op_start c"
  by (auto simp: chr_defs op_start_def)

lemma hash_class:
  "\<not> isspace (CHR ''#'') \<and> \<not> isdigit (CHR ''#'') \<and> \<not> isfirstvarchr (CHR ''#'') \<and>
   \<not> op_start (CHR ''#'')"
  by (simp add: chr_defs op_start_def)

lemma paren_class:
  "c = CHR ''('' \<or> c = CHR '')'' \<Longrightarrow>
     c \<noteq> CHR ''#'' \<and> \<not> isspace c \<and> \<not> isdigit c \<and> \<not> isfirstvarchr c \<and> \<not> op_start c"
  by (auto simp: chr_defs op_start_def)

lemma op_start_opchr: "op_start c \<Longrightarrow> opchr c"
  by (auto simp: op_start_def opchr_def chr_defs)

lemma unary_op_char:
  "expr_op [c] 1 = OP_UNKNOWN \<longleftrightarrow> c \<noteq> CHR ''-'' \<and> c \<noteq> CHR ''!'' \<and> c \<noteq> CHR ''^''"
  by (simp add: op_defs)

lemma char_class_cases:
  obtains (hash) "c = CHR ''#''" | (newline) "c = CHR 0x0A" | (space) "isspace c" "c \<noteq> CHR 0x0A"
    | (digit) "isdigit c" | (word) "isfirstvarchr c" | (paren) "c = CHR ''('' \<or> c = CHR '')''"
    | (op) "op_start c"
  unfolding op_start_def by blast

lemma tok_nil: "expr_next_token [] fl = (0, fl)"
  by (simp add: expr_next_token_def)

lemma tok_hash:
  "expr_next_token (CHR ''#'' # cs) fl =
     (int (Suc (length (takeWhile (\<lambda>d. d \<noteq> CHR 0x0A) cs))), fl)"
  by (simp add: expr_next_token_def)

lemma tok_newline:
  "fst (expr_next_token (CHR 0x0A # cs) fl) = int (Suc (length (takeWhile isspace cs)))"
  by (simp add: expr_next_token_def Let_def isspace_def)

lemma tok_space:
  "isspace c \<Longrightarrow> c \<noteq> CHR 0x0A \<Longrightarrow>
   expr_next_token (c # cs) fl =
     (int (Suc (length (takeWhile (\<lambda>d. isspace d \<and> d \<noteq> CHR 0x0A) cs))), fl)"
  using space_class [of c] by (simp add: expr_next_token_def)

lemma tok_digit:
  "isdigit c \<Longrightarrow>
   expr_next_token (c # cs) fl =
     (if EXPR_TNUMBER \<notin> fl then (- 1, fl)
      else (int (Suc (length (takeWhile (\<lambda>d. d = CHR ''.'' \<or> isdigit d) cs))),
            {EXPR_TOP, EXPR_TCLOSE}))"
  using digit_class [of c] by (simp add: expr_next_token_def)

lemma tok_word:
  "isfirstvarchr c \<Longrightarrow>
   expr_next_token (c # cs) fl =
     (if EXPR_TWORD \<notin> fl then (- 2, fl)
      else (int (Suc (length (takeWhile isvarchr cs))), {EXPR_TOP, EXPR_TOPEN, EXPR_TCLOSE}))"
  using word_class [of c] by (simp add: expr_next_token_def)

lemma tok_paren:
  "c = CHR ''('' \<or> c = CHR '')'' \<Longrightarrow>
   expr_next_token (c # cs) fl =
     (if c = CHR ''('' \<and> EXPR_TOPEN \<in> fl
      then (1, {EXPR_TNUMBER, EXPR_TWORD, EXPR_TOPEN, EXPR_TCLOSE})
      else if c = CHR '')'' \<and> EXPR_TCLOSE \<in> fl then (1, {EXPR_TOP, EXPR_TCLOSE})
      else (- 3, fl))"
  using paren_class [of c] by (auto simp add: expr_next_token_def)

lemma tok_op:
  "op_start c \<Longrightarrow>
   expr_next_token (c # cs) fl =
     (if EXPR_TOP \<notin> fl then
        (if expr_op [c] 1 = OP_UNKNOWN then (- 4, fl)
         else (1, {EXPR_TNUMBER, EXPR_TWORD, EXPR_TOPEN, EXPR_UNARY}))
      else (case op_scan (c # cs) 0 False of
              (i, found) \<Rightarrow>
                if \<not> found then (- 5, fl)
                else (int i, {EXPR_TNUMBER, EXPR_TWORD, EXPR_TOPEN})))"
  by (simp add: expr_next_token_def op_start_def isspace_def)

lemma codes_nil: "token_codes [] fl (fst (expr_next_token [] fl))"
  by (simp add: tok_nil token_codes_def)

lemma codes_hash: "token_codes (CHR ''#'' # cs) fl (fst (expr_next_token (CHR ''#'' # cs) fl))"
  using hash_class by (simp add: tok_hash token_codes_def length_takeWhile_le)

lemma codes_newline:
  "token_codes (CHR 0x0A # cs) fl (fst (expr_next_token (CHR 0x0A # cs) fl))"
  using space_class [of "CHR 0x0A"]
  by (simp add: tok_newline token_codes_def length_takeWhile_le isspace_def)

lemma codes_space:
  "isspace c \<Longrightarrow> c \<noteq> CHR 0x0A \<Longrightarrow> token_codes (c # cs) fl (fst (expr_next_token (c # cs) fl))"
  using space_class [of c] by (simp add: tok_space token_codes_def length_takeWhile_le)

lemma codes_digit:
  "isdigit c \<Longrightarrow> token_codes (c # cs) fl (fst (expr_next_token (c # cs) fl))"
  using digit_class [of c] by (simp add: tok_digit token_codes_def length_takeWhile_le)

lemma codes_word:
  "isfirstvarchr c \<Longrightarrow> token_codes (c # cs) fl (fst (expr_next_token (c # cs) fl))"
  using word_class [of c] by (simp add: tok_word token_codes_def length_takeWhile_le)

lemma codes_paren:
  "c = CHR ''('' \<or> c = CHR '')'' \<Longrightarrow>
     token_codes (c # cs) fl (fst (expr_next_token (c # cs) fl))"
  using paren_class [of c] by (auto simp add: tok_paren token_codes_def)

lemma codes_op:
  assumes "op_start c"
  shows "token_codes (c # cs) fl (fst (expr_next_token (c # cs) fl))"
proof (cases "EXPR_TOP \<in> fl")
  case False
  with assms show ?thesis
    by (auto simp: tok_op token_codes_def unary_op_char op_start_def)
next
  case True
  obtain i found where sc: "op_scan (c # cs) 0 False = (i, found)"
    by (cases "op_scan (c # cs) 0 False")
  have f: "found \<longleftrightarrow>
     (\<exists>k < length (takeWhile opchr (c # cs)). expr_op (take (Suc k) (c # cs)) 0 \<noteq> OP_UNKNOWN)"
    using op_scan_found0 [of "c # cs"] sc by simp
  have le: "i \<le> length (c # cs)"
    using op_scan_le [of 0 "c # cs" False] sc by simp
  have gt: "found \<Longrightarrow> 0 < i"
    using op_scan_gt [of False "c # cs" 0] sc by simp
  show ?thesis
  proof (cases found)
    case True
    have "fst (expr_next_token (c # cs) fl) = int i"
      using assms \<open>EXPR_TOP \<in> fl\<close> sc True by (simp add: tok_op)
    moreover have "\<not> (\<forall>k < length (takeWhile opchr (c # cs)).
        expr_op (take (Suc k) (c # cs)) 0 = OP_UNKNOWN)"
      using f True by blast
    ultimately show ?thesis
      using gt [OF True] le assms \<open>EXPR_TOP \<in> fl\<close>
      by (simp add: token_codes_def op_start_def)
  next
    case False
    have "fst (expr_next_token (c # cs) fl) = - 5"
      using assms \<open>EXPR_TOP \<in> fl\<close> sc False by (simp add: tok_op)
    moreover have "\<forall>k < length (takeWhile opchr (c # cs)).
        expr_op (take (Suc k) (c # cs)) 0 = OP_UNKNOWN"
      using f False by blast
    ultimately show ?thesis
      using assms \<open>EXPR_TOP \<in> fl\<close> by (simp add: token_codes_def op_start_def)
  qed
qed

lemma codes_all: "token_codes s fl (fst (expr_next_token s fl))"
proof (cases s)
  case Nil
  then show ?thesis using codes_nil by simp
next
  case (Cons c cs)
  show ?thesis
    unfolding Cons
    by (cases c rule: char_class_cases)
      (simp_all add: codes_hash codes_newline codes_space codes_digit codes_word codes_paren
        codes_op)
qed

subsection \<open>The length of a lexeme\<close>

lemma longest_prefix_takeWhile: "longest_prefix P s (length (takeWhile P s))"
  unfolding longest_prefix_def
proof (intro conjI allI impI)
  show "length (takeWhile P s) \<le> length s"
    by (rule length_takeWhile_le)
next
  fix j assume "j < length (takeWhile P s)"
  then show "P (s ! j)"
    by (simp add: takeWhile_length_iff)
next
  assume "length (takeWhile P s) < length s"
  then show "\<not> P (s ! length (takeWhile P s))"
    by (rule nth_length_takeWhile)
qed

lemma longest_prefix_unique:
  assumes "longest_prefix P s n" "longest_prefix P s m"
  shows "n = m"
proof (rule ccontr)
  assume "n \<noteq> m"
  then consider "n < m" | "m < n" by linarith
  then show False
  proof cases
    case 1
    with assms show False unfolding longest_prefix_def by auto
  next
    case 2
    with assms show False unfolding longest_prefix_def by auto
  qed
qed

lemma op_scan_step:
  assumes "i < length s" "opchr (s ! i)"
  shows "expr_op (take (i + 1) s) 0 \<noteq> OP_UNKNOWN \<Longrightarrow> op_scan s i found = op_scan s (i + 1) True"
    and "expr_op (take (i + 1) s) 0 = OP_UNKNOWN \<Longrightarrow> \<not> found \<Longrightarrow>
           op_scan s i found = op_scan s (i + 1) found"
    and "expr_op (take (i + 1) s) 0 = OP_UNKNOWN \<Longrightarrow> found \<Longrightarrow> op_scan s i found = (i, found)"
  using assms by (subst op_scan.simps, simp add: opchr_def)+

lemma op_scan_stop: "\<not> (i < length s \<and> opchr (s ! i)) \<Longrightarrow> op_scan s i found = (i, found)"
  by (subst op_scan.simps) (auto simp: opchr_def)

lemma op_scan_True:
  "found \<longrightarrow>
     snd (op_scan s i found) \<and>
     (\<forall>j. i \<le> j \<and> j < fst (op_scan s i found) \<longrightarrow>
          j < length s \<and> opchr (s ! j) \<and> expr_op (take (Suc j) s) 0 \<noteq> OP_UNKNOWN) \<and>
     \<not> (fst (op_scan s i found) < length s \<and> opchr (s ! fst (op_scan s i found)) \<and>
        expr_op (take (Suc (fst (op_scan s i found))) s) 0 \<noteq> OP_UNKNOWN)"
proof (induction s i found rule: op_scan.induct)
  case (1 s i found)
  show ?case
  proof (intro impI)
    assume found
    show "snd (op_scan s i found) \<and>
     (\<forall>j. i \<le> j \<and> j < fst (op_scan s i found) \<longrightarrow>
          j < length s \<and> opchr (s ! j) \<and> expr_op (take (Suc j) s) 0 \<noteq> OP_UNKNOWN) \<and>
     \<not> (fst (op_scan s i found) < length s \<and> opchr (s ! fst (op_scan s i found)) \<and>
        expr_op (take (Suc (fst (op_scan s i found))) s) 0 \<noteq> OP_UNKNOWN)"
    proof (cases "i < length s \<and> opchr (s ! i) \<and> expr_op (take (i + 1) s) 0 \<noteq> OP_UNKNOWN")
      case False
      have e: "op_scan s i found = (i, found)"
      proof (cases "i < length s \<and> opchr (s ! i)")
        case True
        with False have "expr_op (take (i + 1) s) 0 = OP_UNKNOWN" by blast
        with True \<open>found\<close> show ?thesis by (simp add: op_scan_step(3))
      next
        case False
        then show ?thesis by (rule op_scan_stop)
      qed
      show ?thesis
        unfolding e using False \<open>found\<close> by auto
    next
      case True
      have c1: "i < length s \<and> \<not> isvarchr (s ! i) \<and> \<not> isspace (s ! i) \<and>
          s ! i \<noteq> CHR ''('' \<and> s ! i \<noteq> CHR '')''"
        using True by (simp add: opchr_def)
      have c2: "expr_op (take (i + 1) s) 0 \<noteq> OP_UNKNOWN"
        using True by blast
      have e: "op_scan s i found = op_scan s (i + 1) True"
        using True by (simp add: op_scan_step(1))
      define r where "r = fst (op_scan s (i + 1) True)"
      have ih: "snd (op_scan s (i + 1) True)"
        "\<forall>j. i + 1 \<le> j \<and> j < r \<longrightarrow>
          j < length s \<and> opchr (s ! j) \<and> expr_op (take (Suc j) s) 0 \<noteq> OP_UNKNOWN"
        "\<not> (r < length s \<and> opchr (s ! r) \<and> expr_op (take (Suc r) s) 0 \<noteq> OP_UNKNOWN)"
        using 1(1) [OF c1 c2, THEN mp, OF TrueI] unfolding r_def by blast+
      have "\<forall>j. i \<le> j \<and> j < r \<longrightarrow>
          j < length s \<and> opchr (s ! j) \<and> expr_op (take (Suc j) s) 0 \<noteq> OP_UNKNOWN"
      proof (intro allI impI)
        fix j assume j: "i \<le> j \<and> j < r"
        show "j < length s \<and> opchr (s ! j) \<and> expr_op (take (Suc j) s) 0 \<noteq> OP_UNKNOWN"
        proof (cases "j = i")
          case True
          with \<open>i < length s \<and> opchr (s ! i) \<and> expr_op (take (i + 1) s) 0 \<noteq> OP_UNKNOWN\<close>
          show ?thesis by simp
        next
          case False
          with j have "i + 1 \<le> j \<and> j < r" by simp
          with ih(2) show ?thesis by blast
        qed
      qed
      with ih(1,3) show ?thesis
        unfolding e r_def [symmetric] by blast
    qed
  qed
qed

lemma op_scan_False:
  "\<not> found \<and> snd (op_scan s i found) \<longrightarrow>
     (\<exists>k. i \<le> k \<and> (\<forall>j. i \<le> j \<and> j \<le> k \<longrightarrow> j < length s \<and> opchr (s ! j)) \<and>
         (\<forall>j. i \<le> j \<and> j < k \<longrightarrow> expr_op (take (Suc j) s) 0 = OP_UNKNOWN) \<and>
         expr_op (take (Suc k) s) 0 \<noteq> OP_UNKNOWN \<and>
         op_scan s i found = op_scan s (Suc k) True)"
proof (induction s i found rule: op_scan.induct)
  case (1 s i found)
  show ?case
  proof (intro impI)
    assume a: "\<not> found \<and> snd (op_scan s i found)"
    show "\<exists>k. i \<le> k \<and> (\<forall>j. i \<le> j \<and> j \<le> k \<longrightarrow> j < length s \<and> opchr (s ! j)) \<and>
         (\<forall>j. i \<le> j \<and> j < k \<longrightarrow> expr_op (take (Suc j) s) 0 = OP_UNKNOWN) \<and>
         expr_op (take (Suc k) s) 0 \<noteq> OP_UNKNOWN \<and>
         op_scan s i found = op_scan s (Suc k) True"
    proof (cases "i < length s \<and> opchr (s ! i)")
      case False
      then have "op_scan s i found = (i, found)"
        by (rule op_scan_stop)
      with a show ?thesis by simp
    next
      case inr: True
      have c1: "i < length s \<and> \<not> isvarchr (s ! i) \<and> \<not> isspace (s ! i) \<and>
          s ! i \<noteq> CHR ''('' \<and> s ! i \<noteq> CHR '')''"
        using inr by (simp add: opchr_def)
      show ?thesis
      proof (cases "expr_op (take (i + 1) s) 0 \<noteq> OP_UNKNOWN")
        case True
        have e: "op_scan s i found = op_scan s (Suc i) True"
          using True inr by (simp add: op_scan_step(1))
        show ?thesis
        proof (intro exI [of _ i] conjI allI impI)
          show "i \<le> i" by simp
          show "expr_op (take (Suc i) s) 0 \<noteq> OP_UNKNOWN" using True by simp
          show "op_scan s i found = op_scan s (Suc i) True" by (rule e)
        next
          fix j assume "i \<le> j \<and> j \<le> i"
          then have "j = i" by simp
          with inr show "j < length s" "opchr (s ! j)" by simp_all
        next
          fix j assume "i \<le> j \<and> j < i"
          then have False by arith
          then show "expr_op (take (Suc j) s) 0 = OP_UNKNOWN" ..
        qed
      next
        case False
        then have unk: "expr_op (take (i + 1) s) 0 = OP_UNKNOWN"
          by simp
        have nf: "\<not> found"
          using a by blast
        have e: "op_scan s i found = op_scan s (i + 1) found"
          using unk inr nf by (simp add: op_scan_step(2))
        have "\<not> found \<and> snd (op_scan s (i + 1) found)"
          using a unfolding e .
        then have "\<exists>k. i + 1 \<le> k \<and>
           (\<forall>j. i + 1 \<le> j \<and> j \<le> k \<longrightarrow> j < length s \<and> opchr (s ! j)) \<and>
           (\<forall>j. i + 1 \<le> j \<and> j < k \<longrightarrow> expr_op (take (Suc j) s) 0 = OP_UNKNOWN) \<and>
           expr_op (take (Suc k) s) 0 \<noteq> OP_UNKNOWN \<and>
           op_scan s (i + 1) found = op_scan s (Suc k) True"
          by (rule 1(2) [OF c1 False nf, THEN mp])
        then obtain k where k: "i + 1 \<le> k"
          "\<forall>j. i + 1 \<le> j \<and> j \<le> k \<longrightarrow> j < length s \<and> opchr (s ! j)"
          "\<forall>j. i + 1 \<le> j \<and> j < k \<longrightarrow> expr_op (take (Suc j) s) 0 = OP_UNKNOWN"
          "expr_op (take (Suc k) s) 0 \<noteq> OP_UNKNOWN"
          "op_scan s (i + 1) found = op_scan s (Suc k) True"
          by (elim exE conjE)
        show ?thesis
        proof (intro exI [of _ k] conjI allI impI)
          show "i \<le> k" using k(1) by simp
          show "expr_op (take (Suc k) s) 0 \<noteq> OP_UNKNOWN" by (rule k(4))
          show "op_scan s i found = op_scan s (Suc k) True" using e k(5) by simp
        next
          fix j assume j: "i \<le> j \<and> j \<le> k"
          have "j < length s \<and> opchr (s ! j)"
          proof (cases "j = i")
            case True
            with inr show ?thesis by simp
          next
            case False
            with j have "i + 1 \<le> j \<and> j \<le> k" by simp
            with k(2) show ?thesis by blast
          qed
          then show "j < length s" "opchr (s ! j)" by simp_all
        next
          fix j assume j: "i \<le> j \<and> j < k"
          show "expr_op (take (Suc j) s) 0 = OP_UNKNOWN"
          proof (cases "j = i")
            case True
            with unk show ?thesis by simp
          next
            case False
            with j have "i + 1 \<le> j \<and> j < k" by simp
            with k(3) show ?thesis by blast
          qed
        qed
      qed
    qed
  qed
qed

lemma op_scan_lexeme:
  assumes "op_scan s 0 False = (r, True)"
  shows "operator_lexeme s r"
proof -
  have "snd (op_scan s 0 False)"
    using assms by simp
  then obtain k where k:
    "\<forall>j. 0 \<le> j \<and> j \<le> k \<longrightarrow> j < length s \<and> opchr (s ! j)"
    "\<forall>j. 0 \<le> j \<and> j < k \<longrightarrow> expr_op (take (Suc j) s) 0 = OP_UNKNOWN"
    "expr_op (take (Suc k) s) 0 \<noteq> OP_UNKNOWN"
    "op_scan s 0 False = op_scan s (Suc k) True"
    using op_scan_False [of False s 0, THEN mp] by blast
  have r: "r = fst (op_scan s (Suc k) True)"
    using assms k(4) by simp
  have t: "Suc k \<le> r"
    "\<forall>j. Suc k \<le> j \<and> j < r \<longrightarrow>
        j < length s \<and> opchr (s ! j) \<and> expr_op (take (Suc j) s) 0 \<noteq> OP_UNKNOWN"
    "\<not> (r < length s \<and> opchr (s ! r) \<and> expr_op (take (Suc r) s) 0 \<noteq> OP_UNKNOWN)"
    using op_scan_ge [of "Suc k" s True] op_scan_True [of True s "Suc k", THEN mp, OF TrueI]
    unfolding r by blast+
  have le: "r \<le> length s"
    using op_scan_le [of 0 s False] assms by simp
  have all: "\<forall>j < r. opchr (s ! j)"
  proof (intro allI impI)
    fix j assume "j < r"
    show "opchr (s ! j)"
    proof (cases "j \<le> k")
      case True
      with k(1) show ?thesis by simp
    next
      case False
      with \<open>j < r\<close> have "Suc k \<le> j \<and> j < r" by simp
      with t(2) show ?thesis by blast
    qed
  qed
  have known: "\<forall>j. k \<le> j \<and> j < r \<longrightarrow> expr_op (take (Suc j) s) 0 \<noteq> OP_UNKNOWN"
  proof (intro allI impI)
    fix j assume j: "k \<le> j \<and> j < r"
    show "expr_op (take (Suc j) s) 0 \<noteq> OP_UNKNOWN"
    proof (cases "j = k")
      case True
      with k(3) show ?thesis by simp
    next
      case False
      with j have "Suc k \<le> j \<and> j < r" by simp
      with t(2) show ?thesis by blast
    qed
  qed
  have unknown: "\<forall>j < k. expr_op (take (Suc j) s) 0 = OP_UNKNOWN"
    using k(2) by simp
  have "k < r"
    using t(1) by simp
  with unknown known have ex: "\<exists>k < r. (\<forall>j < k. expr_op (take (Suc j) s) 0 = OP_UNKNOWN) \<and>
              (\<forall>j. k \<le> j \<and> j < r \<longrightarrow> expr_op (take (Suc j) s) 0 \<noteq> OP_UNKNOWN)"
    by blast
  show ?thesis
    unfolding operator_lexeme_def using le all ex t(3) by blast
qed

lemma operator_lexeme_unique:
  assumes "operator_lexeme s n" "operator_lexeme s m"
  shows "n = m"
proof -
  have aux: False if a: "operator_lexeme s n" and b: "operator_lexeme s m" and lt: "n < m" for n m
  proof -
    from a obtain k where k: "k < n"
      "\<forall>j. k \<le> j \<and> j < n \<longrightarrow> expr_op (take (Suc j) s) 0 \<noteq> OP_UNKNOWN"
      unfolding operator_lexeme_def by blast
    from b obtain k' where k': "k' < m"
      "\<forall>j < k'. expr_op (take (Suc j) s) 0 = OP_UNKNOWN"
      "\<forall>j. k' \<le> j \<and> j < m \<longrightarrow> expr_op (take (Suc j) s) 0 \<noteq> OP_UNKNOWN"
      unfolding operator_lexeme_def by blast
    have "n - 1 < n" "k \<le> n - 1" using k(1) by simp_all
    with k(2) have kn: "expr_op (take (Suc (n - 1)) s) 0 \<noteq> OP_UNKNOWN" by blast
    have "\<not> n - 1 < k'"
      using kn k'(2) by blast
    then have "k' \<le> n" by simp
    with k'(3) lt have "expr_op (take (Suc n) s) 0 \<noteq> OP_UNKNOWN" by blast
    moreover have "n < length s" "opchr (s ! n)"
      using b lt unfolding operator_lexeme_def by auto
    ultimately show False
      using a unfolding operator_lexeme_def by blast
  qed
  show ?thesis
  proof (rule ccontr)
    assume "n \<noteq> m"
    then consider "n < m" | "m < n" by linarith
    then show False
      using aux [OF assms] aux [OF assms(2) assms(1)] by cases auto
  qed
qed

lemma longest_prefix_Cons:
  "P c \<Longrightarrow> longest_prefix P (c # cs) (Suc (length (takeWhile P cs)))"
  using longest_prefix_takeWhile [of P "c # cs"] by simp

lemma lexeme_hash:
  assumes "expr_next_token (CHR ''#'' # cs) fl = (n, fl')"
  shows "longest_prefix (\<lambda>d. d \<noteq> CHR 0x0A) (CHR ''#'' # cs) (nat n)"
proof -
  have "nat n = Suc (length (takeWhile (\<lambda>d. d \<noteq> CHR 0x0A) cs))"
    using assms by (auto simp: tok_hash)
  then show ?thesis
    using longest_prefix_Cons [of "\<lambda>d. d \<noteq> CHR 0x0A" "CHR ''#''" cs] by simp
qed

lemma lexeme_newline:
  assumes "expr_next_token (CHR 0x0A # cs) fl = (n, fl')"
  shows "longest_prefix isspace (CHR 0x0A # cs) (nat n)"
proof -
  have "n = int (Suc (length (takeWhile isspace cs)))"
    using tok_newline [of cs fl] assms by simp
  then have "nat n = Suc (length (takeWhile isspace cs))"
    by simp
  moreover have "isspace (CHR 0x0A)"
    by (simp add: isspace_def)
  ultimately show ?thesis
    using longest_prefix_Cons [of isspace "CHR 0x0A" cs] by simp
qed

lemma lexeme_space:
  assumes "expr_next_token (c # cs) fl = (n, fl')" "isspace c" "c \<noteq> CHR 0x0A"
  shows "longest_prefix (\<lambda>d. isspace d \<and> d \<noteq> CHR 0x0A) (c # cs) (nat n)"
proof -
  have "nat n = Suc (length (takeWhile (\<lambda>d. isspace d \<and> d \<noteq> CHR 0x0A) cs))"
    using assms by (auto simp: tok_space)
  then show ?thesis
    using longest_prefix_Cons [of "\<lambda>d. isspace d \<and> d \<noteq> CHR 0x0A" c cs] assms(2,3) by simp
qed

lemma lexeme_digit:
  assumes "expr_next_token (c # cs) fl = (n, fl')" "isdigit c" "0 < n"
  shows "longest_prefix (\<lambda>d. d = CHR ''.'' \<or> isdigit d) (c # cs) (nat n)"
proof -
  have "nat n = Suc (length (takeWhile (\<lambda>d. d = CHR ''.'' \<or> isdigit d) cs))"
    using assms by (auto simp: tok_digit split: if_splits)
  then show ?thesis
    using longest_prefix_Cons [of "\<lambda>d. d = CHR ''.'' \<or> isdigit d" c cs] assms(2) by simp
qed

lemma lexeme_word:
  assumes "expr_next_token (c # cs) fl = (n, fl')" "isfirstvarchr c" "0 < n"
  shows "longest_prefix isvarchr (c # cs) (nat n)"
proof -
  have "nat n = Suc (length (takeWhile isvarchr cs))"
    using assms by (auto simp: tok_word split: if_splits)
  moreover have "isvarchr c"
    using word_class [OF assms(2)] by simp
  ultimately show ?thesis
    using longest_prefix_Cons [of isvarchr c cs] by simp
qed

lemma lexeme_paren:
  assumes "expr_next_token (c # cs) fl = (n, fl')" "c = CHR ''('' \<or> c = CHR '')''" "0 < n"
  shows "n = 1"
  using assms(1,3) by (simp add: tok_paren [OF assms(2)] split: if_splits)

lemma lexeme_unary:
  assumes "expr_next_token (c # cs) fl = (n, fl')" "op_start c" "EXPR_TOP \<notin> fl" "0 < n"
  shows "n = 1"
  using assms(1,3,4) by (simp add: tok_op [OF assms(2)] split: if_splits)

lemma lexeme_operator:
  assumes "expr_next_token (c # cs) fl = (n, fl')" "op_start c" "EXPR_TOP \<in> fl" "0 < n"
  shows "operator_lexeme (c # cs) (nat n)"
proof -
  obtain i found where sc: "op_scan (c # cs) 0 False = (i, found)"
    by (cases "op_scan (c # cs) 0 False")
  have "found \<and> n = int i"
    using assms(1,3,4) sc by (simp add: tok_op [OF assms(2)] split: if_splits)
  then have "op_scan (c # cs) 0 False = (nat n, True)"
    using sc by simp
  then show ?thesis
    by (rule op_scan_lexeme)
qed

lemma lexeme_all:
  assumes "expr_next_token s fl = (n, fl')" "0 < n"
  shows
    "(hd s = CHR ''#'' \<longrightarrow> longest_prefix (\<lambda>d. d \<noteq> CHR 0x0A) s (nat n)) \<and>
     (hd s = CHR 0x0A \<longrightarrow> longest_prefix isspace s (nat n)) \<and>
     (isspace (hd s) \<and> hd s \<noteq> CHR 0x0A \<longrightarrow>
        longest_prefix (\<lambda>d. isspace d \<and> d \<noteq> CHR 0x0A) s (nat n)) \<and>
     (isdigit (hd s) \<longrightarrow> longest_prefix (\<lambda>d. d = CHR ''.'' \<or> isdigit d) s (nat n)) \<and>
     (isfirstvarchr (hd s) \<longrightarrow> longest_prefix isvarchr s (nat n)) \<and>
     (hd s = CHR ''('' \<or> hd s = CHR '')'' \<longrightarrow> n = 1) \<and>
     (op_start (hd s) \<and> EXPR_TOP \<notin> fl \<longrightarrow> n = 1) \<and>
     (op_start (hd s) \<and> EXPR_TOP \<in> fl \<longrightarrow> operator_lexeme s (nat n))"
proof -
  have "s \<noteq> []"
    using assms tok_nil [of fl] by auto
  then obtain c cs where s: "s = c # cs"
    by (cases s) auto
  note e = assms(1) [unfolded s]
  show ?thesis
    unfolding s list.sel
  proof (intro conjI impI)
    assume "c = CHR ''#''"
    with e show "longest_prefix (\<lambda>d. d \<noteq> CHR 0x0A) (c # cs) (nat n)"
      using lexeme_hash [of cs fl n fl'] by simp
  next
    assume "c = CHR 0x0A"
    with e show "longest_prefix isspace (c # cs) (nat n)"
      using lexeme_newline [of cs fl n fl'] by simp
  next
    assume "isspace c \<and> c \<noteq> CHR 0x0A"
    with e show "longest_prefix (\<lambda>d. isspace d \<and> d \<noteq> CHR 0x0A) (c # cs) (nat n)"
      using lexeme_space [of c cs fl n fl'] by simp
  next
    assume "isdigit c"
    then show "longest_prefix (\<lambda>d. d = CHR ''.'' \<or> isdigit d) (c # cs) (nat n)"
      using lexeme_digit [OF e _ assms(2)] by simp
  next
    assume "isfirstvarchr c"
    then show "longest_prefix isvarchr (c # cs) (nat n)"
      using lexeme_word [OF e _ assms(2)] by simp
  next
    assume "c = CHR ''('' \<or> c = CHR '')''"
    then show "n = 1"
      using lexeme_paren [OF e _ assms(2)] by simp
  next
    assume "op_start c \<and> EXPR_TOP \<notin> fl"
    then show "n = 1"
      using lexeme_unary [OF e _ _ assms(2)] by simp
  next
    assume "op_start c \<and> EXPR_TOP \<in> fl"
    then show "operator_lexeme (c # cs) (nat n)"
      using lexeme_operator [OF e _ _ assms(2)] by simp
  qed
qed

section \<open>The codes of the tokenizer\<close>

text \<open>
  Claim C8. \<^verbatim>\<open>expr_next_token\<close> returns \<open>0\<close> at the end of the input and nowhere else. A
  positive result is the length of the lexeme at the head of the input, which the first
  character decides: a comment runs up to the next newline; a newline takes all the white
  space after it; other white space runs up to the next newline or character that is no
  space; a number is the longest run of digits and dots; a word the longest run of word
  characters; a parenthesis is one character, and so is a unary operator (\<^verbatim>\<open>EXPR_TOP\<close>
  clear); a binary operator (\<^verbatim>\<open>EXPR_TOP\<close> set) is the run of operator characters through
  the first prefix that is an operator and on for as long as the prefix stays one. A
  negative result is one of five codes: \<open>-1\<close> exactly for a digit when \<^verbatim>\<open>EXPR_TNUMBER\<close> is
  clear, \<open>-2\<close> exactly for a first character of a word when \<^verbatim>\<open>EXPR_TWORD\<close> is clear, \<open>-3\<close>
  exactly for \<^verbatim>\<open>(\<close> when \<^verbatim>\<open>EXPR_TOPEN\<close> is clear or \<^verbatim>\<open>)\<close> when \<^verbatim>\<open>EXPR_TCLOSE\<close> is clear, \<open>-4\<close>
  exactly for an operator character other than \<^verbatim>\<open>-\<close>, \<^verbatim>\<open>!\<close> and \<^verbatim>\<open>^\<close> when \<^verbatim>\<open>EXPR_TOP\<close> is
  clear (an operand is expected), and \<open>-5\<close> exactly when \<^verbatim>\<open>EXPR_TOP\<close> is set and no prefix
  of the run of operator characters is a binary operator.
\<close>

theorem tokenizer_codes:
  assumes "expr_next_token s fl = (n, fl')"
  shows
    "(n = 0 \<longleftrightarrow> s = []) \<and>
     (0 < n \<longrightarrow> n \<le> int (length s)) \<and>
     (0 < n \<longrightarrow>
        (hd s = CHR ''#'' \<longrightarrow> longest_prefix (\<lambda>d. d \<noteq> CHR 0x0A) s (nat n)) \<and>
        (hd s = CHR 0x0A \<longrightarrow> longest_prefix isspace s (nat n)) \<and>
        (isspace (hd s) \<and> hd s \<noteq> CHR 0x0A \<longrightarrow>
           longest_prefix (\<lambda>d. isspace d \<and> d \<noteq> CHR 0x0A) s (nat n)) \<and>
        (isdigit (hd s) \<longrightarrow> longest_prefix (\<lambda>d. d = CHR ''.'' \<or> isdigit d) s (nat n)) \<and>
        (isfirstvarchr (hd s) \<longrightarrow> longest_prefix isvarchr s (nat n)) \<and>
        (hd s = CHR ''('' \<or> hd s = CHR '')'' \<longrightarrow> n = 1) \<and>
        (op_start (hd s) \<and> EXPR_TOP \<notin> fl \<longrightarrow> n = 1) \<and>
        (op_start (hd s) \<and> EXPR_TOP \<in> fl \<longrightarrow> operator_lexeme s (nat n))) \<and>
     (n < 0 \<longrightarrow> n = - 1 \<or> n = - 2 \<or> n = - 3 \<or> n = - 4 \<or> n = - 5) \<and>
     (n = - 1 \<longleftrightarrow> s \<noteq> [] \<and> isdigit (hd s) \<and> EXPR_TNUMBER \<notin> fl) \<and>
     (n = - 2 \<longleftrightarrow> s \<noteq> [] \<and> isfirstvarchr (hd s) \<and> EXPR_TWORD \<notin> fl) \<and>
     (n = - 3 \<longleftrightarrow> s \<noteq> [] \<and> (hd s = CHR ''('' \<and> EXPR_TOPEN \<notin> fl \<or>
                              hd s = CHR '')'' \<and> EXPR_TCLOSE \<notin> fl)) \<and>
     (n = - 4 \<longleftrightarrow> s \<noteq> [] \<and> op_start (hd s) \<and> EXPR_TOP \<notin> fl \<and>
                 hd s \<noteq> CHR ''-'' \<and> hd s \<noteq> CHR ''!'' \<and> hd s \<noteq> CHR ''^'') \<and>
     (n = - 5 \<longleftrightarrow> s \<noteq> [] \<and> op_start (hd s) \<and> EXPR_TOP \<in> fl \<and>
                 (\<forall>k < length (takeWhile opchr s). expr_op (take (Suc k) s) 0 = OP_UNKNOWN))"
proof -
  have "token_codes s fl (fst (expr_next_token s fl))"
    by (rule codes_all)
  then have tc: "token_codes s fl n"
    using assms by simp
  note parts = tc [unfolded token_codes_def]
  have lx: "0 < n \<longrightarrow>
        (hd s = CHR ''#'' \<longrightarrow> longest_prefix (\<lambda>d. d \<noteq> CHR 0x0A) s (nat n)) \<and>
        (hd s = CHR 0x0A \<longrightarrow> longest_prefix isspace s (nat n)) \<and>
        (isspace (hd s) \<and> hd s \<noteq> CHR 0x0A \<longrightarrow>
           longest_prefix (\<lambda>d. isspace d \<and> d \<noteq> CHR 0x0A) s (nat n)) \<and>
        (isdigit (hd s) \<longrightarrow> longest_prefix (\<lambda>d. d = CHR ''.'' \<or> isdigit d) s (nat n)) \<and>
        (isfirstvarchr (hd s) \<longrightarrow> longest_prefix isvarchr s (nat n)) \<and>
        (hd s = CHR ''('' \<or> hd s = CHR '')'' \<longrightarrow> n = 1) \<and>
        (op_start (hd s) \<and> EXPR_TOP \<notin> fl \<longrightarrow> n = 1) \<and>
        (op_start (hd s) \<and> EXPR_TOP \<in> fl \<longrightarrow> operator_lexeme s (nat n))"
    using lexeme_all [OF assms] by (intro impI)
  show ?thesis
    by (rule conjI [OF parts [THEN conjunct1]
          conjI [OF parts [THEN conjunct2, THEN conjunct1]
            conjI [OF lx parts [THEN conjunct2, THEN conjunct2]]]])
qed

lemma token_examples:
  "expr_next_token '''' EXPR_TDEFAULT = (0, EXPR_TDEFAULT)"
  "expr_next_token ''12+3'' EXPR_TDEFAULT = (2, {EXPR_TOP, EXPR_TCLOSE})"
  "expr_next_token ''<=3'' {EXPR_TOP, EXPR_TCLOSE} = (2, {EXPR_TNUMBER, EXPR_TWORD, EXPR_TOPEN})"
  "expr_next_token ''7'' {EXPR_TOP, EXPR_TCLOSE} = (- 1, {EXPR_TOP, EXPR_TCLOSE})"
  "expr_next_token ''x'' {EXPR_TOP, EXPR_TCLOSE} = (- 2, {EXPR_TOP, EXPR_TCLOSE})"
  "expr_next_token '')'' EXPR_TDEFAULT = (- 3, EXPR_TDEFAULT)"
  "expr_next_token ''*2'' EXPR_TDEFAULT = (- 4, EXPR_TDEFAULT)"
  "expr_next_token ''?'' {EXPR_TOP, EXPR_TCLOSE} = (- 5, {EXPR_TOP, EXPR_TCLOSE})"
  by (simp_all add: tok_defs EXPR_TDEFAULT_def)

lemma lexeme_examples:
  "expr_next_token ''12345+1'' EXPR_TDEFAULT = (5, {EXPR_TOP, EXPR_TCLOSE})"
  "expr_next_token ''<=3'' {EXPR_TOP, EXPR_TCLOSE} = (2, {EXPR_TNUMBER, EXPR_TWORD, EXPR_TOPEN})"
  "expr_next_token ''ab1 + 2'' EXPR_TDEFAULT = (3, {EXPR_TOP, EXPR_TOPEN, EXPR_TCLOSE})"
  "expr_next_token ''-x'' EXPR_TDEFAULT = (1, {EXPR_TNUMBER, EXPR_TWORD, EXPR_TOPEN, EXPR_UNARY})"
  "expr_next_token ''(1)'' EXPR_TDEFAULT = (1, {EXPR_TNUMBER, EXPR_TWORD, EXPR_TOPEN, EXPR_TCLOSE})"
  "expr_next_token ''  x'' EXPR_TDEFAULT = (2, EXPR_TDEFAULT)"
  "expr_next_token ''#c'' EXPR_TDEFAULT = (2, EXPR_TDEFAULT)"
  by (simp_all add: tok_defs EXPR_TDEFAULT_def)

text \<open>
  The theorem of C8 at the end of the input, at the lexemes \<^verbatim>\<open>12345\<close>, \<^verbatim>\<open>ab1\<close>, \<^verbatim>\<open><=\<close> and
  the unary \<^verbatim>\<open>-\<close>, and at one input for each of the five codes.
\<close>

theorem tokenizer_codes_witness:
  "expr_next_token '''' EXPR_TDEFAULT = (0, EXPR_TDEFAULT) \<and>
   expr_next_token ''12345+1'' EXPR_TDEFAULT = (5, {EXPR_TOP, EXPR_TCLOSE}) \<and>
   longest_prefix (\<lambda>d. d = CHR ''.'' \<or> isdigit d) ''12345+1'' 5 \<and>
   expr_next_token ''ab1 + 2'' EXPR_TDEFAULT = (3, {EXPR_TOP, EXPR_TOPEN, EXPR_TCLOSE}) \<and>
   longest_prefix isvarchr ''ab1 + 2'' 3 \<and>
   expr_next_token ''<=3'' {EXPR_TOP, EXPR_TCLOSE} = (2, {EXPR_TNUMBER, EXPR_TWORD, EXPR_TOPEN}) \<and>
   operator_lexeme ''<=3'' 2 \<and>
   expr_next_token ''-x'' EXPR_TDEFAULT = (1, {EXPR_TNUMBER, EXPR_TWORD, EXPR_TOPEN, EXPR_UNARY}) \<and>
   expr_next_token ''7'' {EXPR_TOP, EXPR_TCLOSE} = (- 1, {EXPR_TOP, EXPR_TCLOSE}) \<and>
   isdigit (hd ''7'') \<and> EXPR_TNUMBER \<notin> {EXPR_TOP, EXPR_TCLOSE} \<and>
   expr_next_token ''x'' {EXPR_TOP, EXPR_TCLOSE} = (- 2, {EXPR_TOP, EXPR_TCLOSE}) \<and>
   isfirstvarchr (hd ''x'') \<and>
   expr_next_token '')'' EXPR_TDEFAULT = (- 3, EXPR_TDEFAULT) \<and>
   EXPR_TCLOSE \<notin> EXPR_TDEFAULT \<and>
   expr_next_token ''*2'' EXPR_TDEFAULT = (- 4, EXPR_TDEFAULT) \<and>
   op_start (hd ''*2'') \<and> EXPR_TOP \<notin> EXPR_TDEFAULT \<and>
   expr_next_token ''?'' {EXPR_TOP, EXPR_TCLOSE} = (- 5, {EXPR_TOP, EXPR_TCLOSE}) \<and>
   op_start (hd ''?'') \<and> takeWhile opchr ''?'' = ''?'' \<and> expr_op ''?'' 0 = OP_UNKNOWN"
proof -
  have a: "longest_prefix (\<lambda>d. d = CHR ''.'' \<or> isdigit d) ''12345+1'' 5"
    using tokenizer_codes [OF lexeme_examples(1)] by (simp add: isdigit_def)
  have b: "longest_prefix isvarchr ''ab1 + 2'' 3"
    using tokenizer_codes [OF lexeme_examples(3)] by (simp add: isfirstvarchr_def)
  have c: "operator_lexeme ''<=3'' 2"
    using tokenizer_codes [OF lexeme_examples(2)] by (simp add: op_start_def chr_defs)
  show ?thesis
    using a b c
    tokenizer_codes [OF token_examples(1)]
    tokenizer_codes [OF token_examples(4)] tokenizer_codes [OF token_examples(5)]
    tokenizer_codes [OF token_examples(6)] tokenizer_codes [OF token_examples(7)]
    tokenizer_codes [OF token_examples(8)] token_examples lexeme_examples
  by (simp add: EXPR_TDEFAULT_def opchr_def chr_defs op_defs)
qed

section \<open>Number lexemes\<close>

lemma take_length_takeWhile: "take (length (takeWhile P xs)) xs = takeWhile P xs"
  by (induction xs) simp_all

lemma not_digit_dot: "\<not> isdigit (CHR ''.'')"
  by (simp add: isdigit_def)

lemma parse_digits_Some:
  "parse_digits h cs num nfrac digits = Some r \<Longrightarrow>
     (if nfrac = 0 then count_list cs (CHR ''.'') \<le> 1 else CHR ''.'' \<notin> set cs) \<and>
     (\<forall>c \<in> set cs. c = CHR ''.'' \<or> isdigit c)"
proof (induction cs arbitrary: num nfrac digits)
  case Nil
  then show ?case by simp
next
  case (Cons c cs)
  show ?case
  proof (cases "c = CHR ''.'' \<and> nfrac = 0")
    case True
    then have "parse_digits h cs num (nfrac + 1) digits = Some r"
      using Cons.prems by simp
    from Cons.IH [OF this] True show ?thesis by simp
  next
    case False
    then have d: "isdigit c"
      using Cons.prems by (auto split: if_splits)
    then have nd: "c \<noteq> CHR ''.''"
      using not_digit_dot by auto
    have "parse_digits h cs
          (fadd h (fmul h num (float_of_int 10)) (float_of_int (int (of_char c) - 48)))
          (if nfrac > 0 then nfrac + 1 else nfrac) (digits + 1) = Some r"
      using Cons.prems False d by simp
    from Cons.IH [OF this] d nd show ?thesis by (auto split: if_splits)
  qed
qed

lemma isnan_NAN: "isnan NAN"
  by (simp add: NAN_def float_eval)

lemma parse_number_dots:
  assumes "\<not> isnan (expr_parse_number h tok)"
  shows "count_list tok (CHR ''.'') \<le> 1 \<and> (\<forall>c \<in> set tok. c = CHR ''.'' \<or> isdigit c)"
proof -
  obtain r where "parse_digits h tok fzero 0 0 = Some r"
    using assms isnan_NAN by (auto simp: expr_parse_number_def split: option.splits)
  from parse_digits_Some [OF this] show ?thesis by simp
qed

lemma takeWhile_all: "list_all P (takeWhile P xs)"
  by (induction xs) simp_all

lemma dropWhile_subset: "set (dropWhile P xs) \<subseteq> set xs"
  by (induction xs) auto

lemma count_takeWhile_0: "\<not> P x \<Longrightarrow> count_list (takeWhile P xs) x = 0"
  by (induction xs) auto

lemma count_split:
  "count_list xs x = count_list (takeWhile P xs) x + count_list (dropWhile P xs) x"
  using count_list_append [of "takeWhile P xs" "dropWhile P xs" x] by simp

lemma dropWhile_hd: "dropWhile P xs = y # ys \<Longrightarrow> \<not> P y"
  using hd_dropWhile [of P xs] by auto

lemma number_form:
  assumes "tok \<noteq> []" "isdigit (hd tok)" "count_list tok (CHR ''.'') \<le> 1"
    "\<forall>c \<in> set tok. c = CHR ''.'' \<or> isdigit c"
  shows "\<exists>ds fs. tok = ds @ fs \<and> ds \<noteq> [] \<and> list_all isdigit ds \<and>
           (fs = [] \<or> hd fs = CHR ''.'' \<and> list_all isdigit (tl fs))"
proof -
  let ?ds = "takeWhile isdigit tok" and ?fs = "dropWhile isdigit tok"
  have 1: "tok = ?ds @ ?fs" by simp
  have 2: "?ds \<noteq> []" using assms(1,2) by (cases tok) simp_all
  have 3: "list_all isdigit ?ds" by (rule takeWhile_all)
  have 4: "?fs = [] \<or> hd ?fs = CHR ''.'' \<and> list_all isdigit (tl ?fs)"
  proof (cases "?fs")
    case Nil
    then show ?thesis by simp
  next
    case (Cons f t)
    have nf: "\<not> isdigit f"
      by (rule dropWhile_hd [OF Cons])
    have mem: "\<And>c. c \<in> set ?fs \<Longrightarrow> c = CHR ''.'' \<or> isdigit c"
      using dropWhile_subset [of isdigit tok] assms(4) by blast
    have "f \<in> set ?fs" using Cons by simp
    from mem [OF this] nf have f: "f = CHR ''.''" by simp
    have "count_list ?ds (CHR ''.'') = 0"
      by (rule count_takeWhile_0 [where P = isdigit, OF not_digit_dot])
    then have "count_list tok (CHR ''.'') = count_list ?fs (CHR ''.'')"
      using count_split [of tok "CHR ''.''" isdigit] by simp
    then have "count_list t (CHR ''.'') = 0"
      using assms(3) Cons f by simp
    then have nt: "CHR ''.'' \<notin> set t"
      by (simp add: count_list_0_iff)
    have "isdigit c" if "c \<in> set t" for c
    proof -
      have "c \<in> set ?fs" using that Cons by simp
      from mem [OF this] nt that show ?thesis by blast
    qed
    then have "list_all isdigit t"
      by (simp add: list_all_iff)
    with f Cons show ?thesis by simp
  qed
  from 1 2 3 4 show ?thesis by blast
qed


text \<open>
  Claim C9, as the code has it. A lexeme that the tokenizer accepts at a digit is the
  longest prefix of the input made of digits and dots, however many dots. It is
  \<^verbatim>\<open>expr_parse_number\<close> that returns \<^verbatim>\<open>NAN\<close> on a lexeme with more than one dot; so a lexeme
  that is accepted as a number is a run of digits, then possibly a dot and a run of digits
  that may be empty: \<^verbatim>\<open>[0-9]+(\.[0-9]*)?\<close>, with no exponent and no leading dot.
\<close>

theorem number_lexeme:
  assumes "isdigit c" "EXPR_TNUMBER \<in> fl" "expr_next_token (c # cs) fl = (n, fl')"
    and "tok = take (nat n) (c # cs)"
  shows "0 < n \<and> tok = takeWhile (\<lambda>d. d = CHR ''.'' \<or> isdigit d) (c # cs) \<and>
         (1 < count_list tok (CHR ''.'') \<longrightarrow> expr_parse_number h tok = NAN) \<and>
         (\<not> isnan (expr_parse_number h tok) \<longrightarrow>
            (\<exists>ds fs. tok = ds @ fs \<and> ds \<noteq> [] \<and> list_all isdigit ds \<and>
               (fs = [] \<or> hd fs = CHR ''.'' \<and> list_all isdigit (tl fs))))"
proof -
  let ?P = "\<lambda>d. d = CHR ''.'' \<or> isdigit d"
  have n: "n = int (Suc (length (takeWhile ?P cs)))"
    using assms(1-3) by (simp add: tok_digit)
  have "nat n = Suc (length (takeWhile ?P cs))"
    using n by simp
  then have tok: "tok = takeWhile ?P (c # cs)"
    using assms(1,4) by (simp add: take_length_takeWhile)
  have hd: "tok \<noteq> []" "isdigit (hd tok)"
    using tok assms(1) by simp_all
  have dots: "1 < count_list tok (CHR ''.'') \<Longrightarrow> expr_parse_number h tok = NAN"
  proof -
    assume a: "1 < count_list tok (CHR ''.'')"
    have "parse_digits h tok fzero 0 0 = None"
    proof (cases "parse_digits h tok fzero 0 0")
      case None
      then show ?thesis .
    next
      case (Some r)
      from parse_digits_Some [OF this] a show ?thesis by simp
    qed
    then show ?thesis by (simp add: expr_parse_number_def)
  qed
  have form: "\<exists>ds fs. tok = ds @ fs \<and> ds \<noteq> [] \<and> list_all isdigit ds \<and>
               (fs = [] \<or> hd fs = CHR ''.'' \<and> list_all isdigit (tl fs))"
    if a: "\<not> isnan (expr_parse_number h tok)"
  proof -
    from parse_number_dots [OF a]
    have "count_list tok (CHR ''.'') \<le> 1" "\<forall>c \<in> set tok. c = CHR ''.'' \<or> isdigit c"
      by simp_all
    then show ?thesis
      by (rule number_form [OF hd])
  qed
  show ?thesis
  proof (intro conjI impI)
    show "0 < n" using n by simp
    show "tok = takeWhile ?P (c # cs)" by (rule tok)
    show "expr_parse_number h tok = NAN" if "1 < count_list tok (CHR ''.'')"
      using that by (rule dots)
    show "\<exists>ds fs. tok = ds @ fs \<and> ds \<noteq> [] \<and> list_all isdigit ds \<and>
               (fs = [] \<or> hd fs = CHR ''.'' \<and> list_all isdigit (tl fs))"
      if "\<not> isnan (expr_parse_number h tok)"
      using that by (rule form)
  qed
qed

lemma int_host_number: "expr_parse_number int_host ''1.5'' = fone"
  by (simp add: expr_parse_number_def chr_defs int_host_def on_ints_def fzero_def fone_def
      float_eval float_of_int_def bit_length.simps)

text \<open>The theorem of C9 at the input \<^verbatim>\<open>1.5+2\<close>, whose first lexeme is \<^verbatim>\<open>1.5\<close>.\<close>

theorem number_lexeme_witness:
  "isdigit (CHR ''1'') \<and> EXPR_TNUMBER \<in> EXPR_TDEFAULT \<and>
   expr_next_token ''1.5+2'' EXPR_TDEFAULT = (3, {EXPR_TOP, EXPR_TCLOSE}) \<and>
   ''1.5'' = take (nat 3) ''1.5+2'' \<and>
   ''1.5'' = takeWhile (\<lambda>d. d = CHR ''.'' \<or> isdigit d) ''1.5+2'' \<and>
   \<not> isnan (expr_parse_number int_host ''1.5'') \<and>
   (\<exists>ds fs. ''1.5'' = ds @ fs \<and> ds \<noteq> [] \<and> list_all isdigit ds \<and>
      (fs = [] \<or> hd fs = CHR ''.'' \<and> list_all isdigit (tl fs)))"
proof -
  have d: "isdigit (CHR ''1'')"
    by (simp add: isdigit_def)
  have f: "EXPR_TNUMBER \<in> EXPR_TDEFAULT"
    by (simp add: EXPR_TDEFAULT_def)
  have e: "expr_next_token ''1.5+2'' EXPR_TDEFAULT = (3, {EXPR_TOP, EXPR_TCLOSE})"
    by (simp add: tok_defs EXPR_TDEFAULT_def)
  have t: "''1.5'' = take (nat 3) ''1.5+2''"
    by simp
  have "\<not> isnan fone"
    by (simp add: fone_def float_eval)
  then have n: "\<not> isnan (expr_parse_number int_host ''1.5'')"
    by (simp add: int_host_number)
  show ?thesis
    using number_lexeme [OF d f e t, of int_host] d f e t n by blast
qed

lemma int_host_numbers:
  "expr_parse_number int_host ''1.'' = fone"
  "expr_parse_number int_host ''1.2.3'' = NAN"
  "expr_parse_number int_host ''1'' = fone"
  "expr_parse_number int_host ''2'' = Float 0x40000000"
  "expr_parse_number int_host '','' = NAN"
  by (simp_all add: expr_parse_number_def chr_defs int_host_def on_ints_def fzero_def fone_def
      float_eval float_of_int_def bit_length.simps)

lemma nan_facts: "isnan NAN" "\<not> isnan fone" "\<not> isnan (Float 0x40000000)"
  by (simp_all add: NAN_def fone_def float_eval)

text \<open>
  Claim C9 as the specification words it fails twice. The tokenizer accepts \<^verbatim>\<open>1.2.3\<close>, a
  lexeme with two dots (the parser then rejects it), and the source \<^verbatim>\<open>1.\<close>, which is not of
  the form \<^verbatim>\<open>[0-9]+(\.[0-9]+)?\<close>, is accepted as the number \<open>1\<close>.
\<close>

theorem number_lexeme_counterexample:
  "expr_next_token ''1.2.3'' EXPR_TDEFAULT = (5, {EXPR_TOP, EXPR_TCLOSE}) \<and>
   take 5 ''1.2.3'' = ''1.2.3'' \<and> count_list ''1.2.3'' (CHR ''.'') = 2 \<and>
   expr_create int_host ''1.2.3'' [] [] = Some (None, []) \<and>
   expr_next_token ''1.'' EXPR_TDEFAULT = (2, {EXPR_TOP, EXPR_TCLOSE}) \<and>
   expr_create int_host ''1.'' [] [] = Some (Some (Const fone), [])"
proof -
  have "expr_next_token ''1.2.3'' EXPR_TDEFAULT = (5, {EXPR_TOP, EXPR_TCLOSE})"
    "expr_next_token ''1.'' EXPR_TDEFAULT = (2, {EXPR_TOP, EXPR_TCLOSE})"
    by (simp_all add: tok_defs EXPR_TDEFAULT_def)
  moreover have "expr_create int_host ''1.2.3'' [] [] = Some (None, [])"
    by (simp add: loop_defs tok_defs parse_defs prec_defs int_host_numbers nan_facts)
  moreover have "expr_create int_host ''1.'' [] [] = Some (Some (Const fone), [])"
    by (simp add: loop_defs tok_defs parse_defs prec_defs int_host_numbers nan_facts)
  ultimately show ?thesis by simp
qed

section \<open>Newlines as commas\<close>

lemma length_takeWhile_eq: "length (takeWhile P xs) = length xs \<longleftrightarrow> dropWhile P xs = []"
  by (induction xs) auto

lemma nth_takeWhile_hd:
  "dropWhile P xs \<noteq> [] \<Longrightarrow> xs ! length (takeWhile P xs) = hd (dropWhile P xs)"
  by (induction xs) auto

lemma tok_newline_flags:
  "expr_next_token (CHR 0x0A # cs) fl =
     (int (Suc (length (takeWhile isspace cs))),
      if EXPR_TOP \<in> fl
      then (if dropWhile isspace cs = [] \<or> hd (dropWhile isspace cs) = CHR '')''
            then fl - {EXPR_COMMA}
            else {EXPR_TNUMBER, EXPR_TWORD, EXPR_TOPEN, EXPR_COMMA})
      else fl)"
proof -
  have sp: "isspace (CHR 0x0A)"
    by (simp add: isspace_def)
  have "(length (takeWhile isspace cs) = length cs \<or>
         cs ! length (takeWhile isspace cs) = CHR '')'') \<longleftrightarrow>
        (dropWhile isspace cs = [] \<or> hd (dropWhile isspace cs) = CHR '')'')"
    using length_takeWhile_eq [of isspace cs] nth_takeWhile_hd [of isspace cs]
    by (cases "dropWhile isspace cs = []") (simp_all del: dropWhile_eq_Nil_conv)
  then show ?thesis
    using sp by (simp add: expr_next_token_def Let_def)
qed

lemma newline_skipped:
  assumes "first_char tok = CHR 0x0A" "EXPR_UNARY \<notin> p_flags st" "EXPR_COMMA \<notin> p_flags st"
  shows "parse_token h funcs tok st = Next st"
  using assms by (simp add: parse_token_def unary_rewrite_def newline_comma_def isspace_def)

lemma newline_injected:
  assumes "first_char tok = CHR 0x0A" "EXPR_COMMA \<in> p_flags st" "EXPR_UNARY \<notin> p_flags st"
  shows "parse_token h funcs tok st =
           parse_token h funcs '','' (st\<lparr>p_flags := p_flags st - {EXPR_COMMA}\<rparr>)"
  using assms
  by (simp add: parse_token_def unary_rewrite_def newline_comma_def isspace_def first_char_def)

text \<open>
  Claim C6, as the code has it. The flag that the tokenizer tests on a newline is
  \<^verbatim>\<open>EXPR_TOP\<close>, which says that an operator may come next: it is set after a number, a word
  and a \<^verbatim>\<open>)\<close>, inside parentheses as well as outside. With that flag set the tokenizer
  swallows the white space that follows the newline and, if the next character is neither
  the end of the input nor \<^verbatim>\<open>)\<close>, sets the flags to
  \<^verbatim>\<open>EXPR_TNUMBER | EXPR_TWORD | EXPR_TOPEN | EXPR_COMMA\<close>: the \<^verbatim>\<open>EXPR_COMMA\<close> bit is set, and
  \<^verbatim>\<open>EXPR_UNARY\<close> is clear; at the end of the input or before \<^verbatim>\<open>)\<close> it clears \<^verbatim>\<open>EXPR_COMMA\<close>.
  The parser, on a newline token that arrives with \<^verbatim>\<open>EXPR_UNARY\<close> clear, does exactly what it
  does on the token \<^verbatim>\<open>,\<close> of length one, the bit cleared, when \<^verbatim>\<open>EXPR_COMMA\<close> is set, and skips
  the token when \<^verbatim>\<open>EXPR_COMMA\<close> is clear.
\<close>

theorem newline_as_comma:
  "(EXPR_TOP \<in> fl \<longrightarrow>
      expr_next_token (CHR 0x0A # cs) fl =
        (int (length (takeWhile isspace (CHR 0x0A # cs))),
         if dropWhile isspace cs = [] \<or> hd (dropWhile isspace cs) = CHR '')''
         then fl - {EXPR_COMMA}
         else {EXPR_TNUMBER, EXPR_TWORD, EXPR_TOPEN, EXPR_COMMA})) \<and>
   (first_char tok = CHR 0x0A \<and> EXPR_UNARY \<notin> p_flags st \<and> EXPR_COMMA \<in> p_flags st \<longrightarrow>
      parse_token h funcs tok st =
        parse_token h funcs '','' (st\<lparr>p_flags := p_flags st - {EXPR_COMMA}\<rparr>)) \<and>
   (first_char tok = CHR 0x0A \<and> EXPR_UNARY \<notin> p_flags st \<and> EXPR_COMMA \<notin> p_flags st \<longrightarrow>
      parse_token h funcs tok st = Next st)"
proof -
  have "isspace (CHR 0x0A)"
    by (simp add: isspace_def)
  then show ?thesis
    using tok_newline_flags [of cs fl] newline_skipped [of tok st h funcs]
      newline_injected [of tok st h funcs]
    by simp
qed

text \<open>
  The theorem of C6 on the input \<^verbatim>\<open>1\<close>, newline, \<^verbatim>\<open>2\<close>: after \<^verbatim>\<open>1\<close> the tokenizer sets
  \<^verbatim>\<open>EXPR_COMMA\<close> on the newline, the parser takes the newline for a comma, and the tree is
  that of \<^verbatim>\<open>1,2\<close>; and on a newline at the end of the input, which leaves the bit clear and
  is skipped.
\<close>

theorem newline_as_comma_witness:
  "EXPR_TOP \<in> {EXPR_TOP, EXPR_TCLOSE} \<and>
   expr_next_token [CHR 0x0A, CHR ''2''] {EXPR_TOP, EXPR_TCLOSE} =
     (1, {EXPR_TNUMBER, EXPR_TWORD, EXPR_TOPEN, EXPR_COMMA}) \<and>
   expr_next_token [CHR 0x0A] {EXPR_TOP, EXPR_TCLOSE} = (1, {EXPR_TOP, EXPR_TCLOSE}) \<and>
   first_char [CHR 0x0A] = CHR 0x0A \<and> EXPR_UNARY \<notin> p_flags after_one \<and>
   EXPR_COMMA \<in> p_flags after_one \<and>
   parse_token int_host [] [CHR 0x0A] after_one =
     Next (after_one\<lparr>p_os := ['',''], p_flags := {EXPR_TNUMBER, EXPR_TWORD, EXPR_TOPEN},
                      p_paren := EXPR_PAREN_ALLOWED\<rparr>) \<and>
   EXPR_UNARY \<notin> p_flags (after_one\<lparr>p_flags := {EXPR_TOP, EXPR_TCLOSE}\<rparr>) \<and>
   EXPR_COMMA \<notin> p_flags (after_one\<lparr>p_flags := {EXPR_TOP, EXPR_TCLOSE}\<rparr>) \<and>
   parse_token int_host [] [CHR 0x0A] (after_one\<lparr>p_flags := {EXPR_TOP, EXPR_TCLOSE}\<rparr>) =
     Next (after_one\<lparr>p_flags := {EXPR_TOP, EXPR_TCLOSE}\<rparr>) \<and>
   expr_create int_host [CHR ''1'', CHR 0x0A, CHR ''2''] [] [] =
     Some (Some (Op OP_COMMA [Const fone, Const (Float 0x40000000)]), []) \<and>
   expr_create int_host ''1,2'' [] [] =
     Some (Some (Op OP_COMMA [Const fone, Const (Float 0x40000000)]), [])"
proof -
  have c: "parse_token int_host [] '','' (after_one\<lparr>p_flags := p_flags after_one - {EXPR_COMMA}\<rparr>) =
     Next (after_one\<lparr>p_os := ['',''], p_flags := {EXPR_TNUMBER, EXPR_TWORD, EXPR_TOPEN},
                      p_paren := EXPR_PAREN_ALLOWED\<rparr>)"
    by (simp add: after_one_def parse_defs op_defs prec_defs chr_defs int_host_numbers
        nan_facts insert_Diff_if)
  have r: "expr_create int_host [CHR ''1'', CHR 0x0A, CHR ''2''] [] [] =
     Some (Some (Op OP_COMMA [Const fone, Const (Float 0x40000000)]), [])"
    "expr_create int_host ''1,2'' [] [] =
     Some (Some (Op OP_COMMA [Const fone, Const (Float 0x40000000)]), [])"
    by (simp_all add: loop_defs tok_defs parse_defs prec_defs int_host_numbers nan_facts
        insert_Diff_if)
  have f: "first_char [CHR 0x0A] = CHR 0x0A" "EXPR_COMMA \<in> p_flags after_one"
    "EXPR_UNARY \<notin> p_flags after_one"
    "EXPR_UNARY \<notin> p_flags (after_one\<lparr>p_flags := {EXPR_TOP, EXPR_TCLOSE}\<rparr>)"
    "EXPR_COMMA \<notin> p_flags (after_one\<lparr>p_flags := {EXPR_TOP, EXPR_TCLOSE}\<rparr>)"
    by (simp_all add: first_char_def after_one_def)
  show ?thesis
    using newline_as_comma [where fl = "{EXPR_TOP, EXPR_TCLOSE}" and cs = "[CHR ''2'']"
        and tok = "[CHR 0x0A]" and st = after_one and h = int_host and funcs = "[]"]
      newline_as_comma [where fl = "{EXPR_TOP, EXPR_TCLOSE}" and cs = "[]"
        and tok = "[CHR 0x0A]" and st = "after_one\<lparr>p_flags := {EXPR_TOP, EXPR_TCLOSE}\<rparr>"
        and h = int_host and funcs = "[]"]
      c r f
    by (simp add: isspace_def insert_Diff_if)
qed

lemma paren_newline:
  "expr_create int_host [CHR ''('', CHR ''1'', CHR 0x0A, CHR ''2'', CHR '')''] [] [] =
     Some (Some (Op OP_COMMA [Const fone, Const (Float 0x40000000)]), [])"
  by (simp add: loop_defs tok_defs parse_defs prec_defs int_host_numbers nan_facts
        insert_Diff_if)

text \<open>
  Claim C6 as the specification words it has the bit the wrong way round, twice. Before
  \<^verbatim>\<open>2\<close> the newline leaves \<^verbatim>\<open>EXPR_COMMA\<close> set, not clear; at the end of the input it leaves the
  bit clear, and the newline that arrives with the bit clear is skipped: \<^verbatim>\<open>1\<close> followed by
  a newline compiles to the constant \<open>1\<close>, whereas \<^verbatim>\<open>1,\<close>, with the comma, is rejected. And
  the flag that is tested marks no top level: the newline between \<^verbatim>\<open>1\<close> and \<^verbatim>\<open>2\<close> inside
  parentheses is a comma too.
\<close>

theorem newline_as_comma_counterexample:
  "expr_next_token [CHR 0x0A, CHR ''2''] {EXPR_TOP, EXPR_TCLOSE} =
     (1, {EXPR_TNUMBER, EXPR_TWORD, EXPR_TOPEN, EXPR_COMMA}) \<and>
   expr_next_token [CHR 0x0A] {EXPR_TOP, EXPR_TCLOSE} = (1, {EXPR_TOP, EXPR_TCLOSE}) \<and>
   EXPR_COMMA \<notin> {EXPR_TOP, EXPR_TCLOSE} \<and>
   parse_token int_host [] [CHR 0x0A] (after_one\<lparr>p_flags := {EXPR_TOP, EXPR_TCLOSE}\<rparr>) =
     Next (after_one\<lparr>p_flags := {EXPR_TOP, EXPR_TCLOSE}\<rparr>) \<and>
   expr_create int_host [CHR ''1'', CHR 0x0A] [] [] = Some (Some (Const fone), []) \<and>
   expr_create int_host ''1,'' [] [] = Some (None, []) \<and>
   expr_create int_host [CHR ''('', CHR ''1'', CHR 0x0A, CHR ''2'', CHR '')''] [] [] =
     Some (Some (Op OP_COMMA [Const fone, Const (Float 0x40000000)]), [])"
proof -
  have "expr_next_token [CHR 0x0A, CHR ''2''] {EXPR_TOP, EXPR_TCLOSE} =
     (1, {EXPR_TNUMBER, EXPR_TWORD, EXPR_TOPEN, EXPR_COMMA})"
    "expr_next_token [CHR 0x0A] {EXPR_TOP, EXPR_TCLOSE} = (1, {EXPR_TOP, EXPR_TCLOSE})"
    by (simp_all add: tok_defs)
  moreover have
    "parse_token int_host [] [CHR 0x0A] (after_one\<lparr>p_flags := {EXPR_TOP, EXPR_TCLOSE}\<rparr>) =
     Next (after_one\<lparr>p_flags := {EXPR_TOP, EXPR_TCLOSE}\<rparr>)"
    by (simp add: after_one_def parse_defs chr_defs)
  moreover have "expr_create int_host [CHR ''1'', CHR 0x0A] [] [] = Some (Some (Const fone), [])"
    by (simp add: loop_defs tok_defs parse_defs prec_defs int_host_numbers nan_facts
        insert_Diff_if)
  moreover have "expr_create int_host ''1,'' [] [] = Some (None, [])"
    by (simp add: loop_defs tok_defs parse_defs prec_defs int_host_numbers nan_facts
        insert_Diff_if)
  ultimately show ?thesis
    using paren_newline by simp
qed

text \<open>
  A newline token that arrives with \<^verbatim>\<open>EXPR_UNARY\<close> set, that is directly after a unary
  operator, meets the check on tokens of one character first, which lets only \<^verbatim>\<open>-\<close>, \<^verbatim>\<open>^\<close>
  and \<^verbatim>\<open>!\<close> through. So a lone newline or blank after a unary minus is rejected, and white
  space of two characters there is skipped.
\<close>

lemma unary_nan: "expr_parse_number h ''-u'' = NAN"
  by (simp add: expr_parse_number_def chr_defs)

lemma unary_newline:
  "expr_create int_host [CHR ''-'', CHR 0x0A, CHR ''1''] [] [] = Some (None, [])"
  "expr_create int_host [CHR ''-'', CHR 0x0A, CHR '' '', CHR ''1''] [] [] =
     Some (Some (Op OP_UNARY_MINUS [Const fone]), [])"
  "expr_create int_host ''- 1'' [] [] = Some (None, [])"
  "expr_create int_host ''-1'' [] [] = Some (Some (Op OP_UNARY_MINUS [Const fone]), [])"
  by (simp_all add: loop_defs tok_defs parse_defs prec_defs int_host_numbers nan_facts
        unary_nan insert_Diff_if)

section \<open>Exponentiation\<close>

lemma float_consts:
  "float_of_int 10 = Float 0x41200000" "float_of_int 2 = Float 0x40000000"
  "float_of_int 3 = Float 0x40400000" "fzero = Float 0"
  "\<not> isnan (Float 0x40000000)" "\<not> isnan (Float 0x40400000)" "isnan NAN"
  by (simp_all add: float_of_int_def bit_length.simps fzero_def NAN_def float_eval)


text \<open>
  Claim C5. For a host whose arithmetic is exact on the four operations the example needs
  (\<open>0 * 10 + 2\<close> and \<open>0 * 10 + 3\<close>, by which the digits are read, \<open>3 ^ 2\<close> and \<open>2 ^ 9\<close>), the
  source \<^verbatim>\<open>2**3**2\<close> compiles, against any variables and function table, to the tree of
  \<^verbatim>\<open>2**(3**2)\<close> and adds no variable; that tree evaluates to \<open>512\<close> in any state and leaves
  the state as it was. The table of precedences makes \<^verbatim>\<open>**\<close> right-associative and tighter
  than \<^verbatim>\<open>+\<close>, and the operator loop of the parser acts on it: on a \<^verbatim>\<open>**\<close> it binds neither
  a \<^verbatim>\<open>**\<close> nor a \<^verbatim>\<open>+\<close> that is on top of the operator stack, and on a \<^verbatim>\<open>+\<close> it binds the
  \<^verbatim>\<open>**\<close> on top of the stack to the two operands on top of the operand stack before it goes
  on. So \<^verbatim>\<open>2**3+2\<close> compiles to the tree of \<^verbatim>\<open>(2**3)+2\<close> and \<^verbatim>\<open>2+3**2\<close> to that of
  \<^verbatim>\<open>2+(3**2)\<close>.
\<close>

theorem power_right_assoc:
  assumes "fadd h (fmul h (Float 0) (Float 0x41200000)) (Float 0x40000000) = Float 0x40000000"
    and "fadd h (fmul h (Float 0) (Float 0x41200000)) (Float 0x40400000) = Float 0x40400000"
    and "powf h (Float 0x40400000) (Float 0x40000000) = Float 0x41100000"
    and "powf h (Float 0x40000000) (Float 0x41100000) = Float 0x44000000"
  shows "expr_create h ''2**3**2'' vs funcs =
           Some (Some (Op OP_POWER [Const (Float 0x40000000),
                   Op OP_POWER [Const (Float 0x40400000), Const (Float 0x40000000)]]), vs) \<and>
         expr_eval h (Op OP_POWER [Const (Float 0x40000000),
             Op OP_POWER [Const (Float 0x40400000), Const (Float 0x40000000)]]) st =
           Some (Float 0x44000000, st) \<and>
         \<not> expr_prec OP_POWER OP_POWER \<and> expr_prec OP_PLUS OP_POWER \<and>
         \<not> expr_prec OP_POWER OP_PLUS \<and>
         shunt ''**'' (''**'' # os) es as = Next (''**'' # ''**'' # os, es, as) \<and>
         shunt ''**'' (''+'' # os) es as = Next (''**'' # ''+'' # os, es, as) \<and>
         shunt ''+'' (''**'' # os) (b # a # es) as =
           shunt ''+'' os (Op OP_POWER [a, b] # es) as \<and>
         expr_create h ''2**3+2'' vs funcs =
           Some (Some (Op OP_PLUS [Op OP_POWER [Const (Float 0x40000000),
                   Const (Float 0x40400000)], Const (Float 0x40000000)]), vs) \<and>
         expr_create h ''2+3**2'' vs funcs =
           Some (Some (Op OP_PLUS [Const (Float 0x40000000),
                   Op OP_POWER [Const (Float 0x40400000), Const (Float 0x40000000)]]), vs)"
proof -
  have n2: "expr_parse_number h ''2'' = Float 0x40000000"
    using assms(1) by (simp add: expr_parse_number_def chr_defs float_consts)
  have n3: "expr_parse_number h ''3'' = Float 0x40400000"
    using assms(2) by (simp add: expr_parse_number_def chr_defs float_consts)
  have np: "expr_parse_number h ''**'' = NAN" "expr_parse_number h ''+'' = NAN"
    by (simp_all add: expr_parse_number_def chr_defs)
  have c1: "expr_create h ''2**3**2'' vs funcs =
           Some (Some (Op OP_POWER [Const (Float 0x40000000),
                   Op OP_POWER [Const (Float 0x40400000), Const (Float 0x40000000)]]), vs)"
    by (simp add: loop_defs tok_defs parse_defs prec_defs n2 n3 np float_consts)
  have c2: "expr_eval h (Op OP_POWER [Const (Float 0x40000000),
             Op OP_POWER [Const (Float 0x40400000), Const (Float 0x40000000)]]) st =
           Some (Float 0x44000000, st)"
    using assms(3,4) by (simp add: eval_args_def binop_def)
  have c3: "\<not> expr_prec OP_POWER OP_POWER \<and> expr_prec OP_PLUS OP_POWER \<and>
         \<not> expr_prec OP_POWER OP_PLUS"
    by (simp add: prec_defs expr_is_unary_def)
  have c4: "shunt ''**'' (''**'' # os) es as = Next (''**'' # ''**'' # os, es, as)"
    "shunt ''**'' (''+'' # os) es as = Next (''**'' # ''+'' # os, es, as)"
    "shunt ''+'' (''**'' # os) (b # a # es) as = shunt ''+'' os (Op OP_POWER [a, b] # es) as"
    by (simp_all add: op_defs prec_defs expr_bind_def)
  have c5: "expr_create h ''2**3+2'' vs funcs =
           Some (Some (Op OP_PLUS [Op OP_POWER [Const (Float 0x40000000),
                   Const (Float 0x40400000)], Const (Float 0x40000000)]), vs)"
    by (simp add: loop_defs tok_defs parse_defs prec_defs n2 n3 np float_consts)
  have c6: "expr_create h ''2+3**2'' vs funcs =
           Some (Some (Op OP_PLUS [Const (Float 0x40000000),
                   Op OP_POWER [Const (Float 0x40400000), Const (Float 0x40000000)]]), vs)"
    by (simp add: loop_defs tok_defs parse_defs prec_defs n2 n3 np float_consts)
  show ?thesis
    using c1 c2 c3 c4 c5 c6 by simp
qed

lemma int_host_512:
  "fadd int_host (fmul int_host (Float 0) (Float 0x41200000)) (Float 0x40000000) = Float 0x40000000"
  "fadd int_host (fmul int_host (Float 0) (Float 0x41200000)) (Float 0x40400000) = Float 0x40400000"
  "powf int_host (Float 0x40400000) (Float 0x40000000) = Float 0x41100000"
  "powf int_host (Float 0x40000000) (Float 0x41100000) = Float 0x44000000"
  by (simp_all add: int_host_def on_ints_def float_eval float_of_int_def bit_length.simps)


text \<open>
  The theorem of C5 for the host of the examples and the empty environment, the operator
  loop on the stacks it meets at the \<^verbatim>\<open>+\<close> of \<^verbatim>\<open>2**3+2\<close>.
\<close>

theorem power_right_assoc_witness:
  "fadd int_host (fmul int_host (Float 0) (Float 0x41200000)) (Float 0x40000000) =
     Float 0x40000000 \<and>
   powf int_host (Float 0x40000000) (Float 0x41100000) = Float 0x44000000 \<and>
   expr_create int_host ''2**3**2'' [] [] =
     Some (Some (Op OP_POWER [Const (Float 0x40000000),
             Op OP_POWER [Const (Float 0x40400000), Const (Float 0x40000000)]]), []) \<and>
   expr_eval int_host (Op OP_POWER [Const (Float 0x40000000),
       Op OP_POWER [Const (Float 0x40400000), Const (Float 0x40000000)]]) st0 =
     Some (Float 0x44000000, st0) \<and>
   shunt ''+'' [''**''] [Const (Float 0x40400000), Const (Float 0x40000000)] [] =
     Next ([''+''], [Op OP_POWER [Const (Float 0x40000000), Const (Float 0x40400000)]], []) \<and>
   expr_create int_host ''2**3+2'' [] [] =
     Some (Some (Op OP_PLUS [Op OP_POWER [Const (Float 0x40000000),
             Const (Float 0x40400000)], Const (Float 0x40000000)]), []) \<and>
   expr_create int_host ''2+3**2'' [] [] =
     Some (Some (Op OP_PLUS [Const (Float 0x40000000),
             Op OP_POWER [Const (Float 0x40400000), Const (Float 0x40000000)]]), [])"
  using power_right_assoc [OF int_host_512, of "[]" "[]" st0 "[]" "[]" "[]"
      "Const (Float 0x40400000)" "Const (Float 0x40000000)"] int_host_512
  by simp

end
